theory Spec2Isabelle
  imports Complex_Main "HOL-Library.AList"
begin

section \<open>JavaScript values\<close>

text \<open>
  The values that reach the middleware come from a parsed JSON body or a parsed query
  string, so they are JSON values. In the middleware a JavaScript number is a real
  number: \<open>NaN\<close> and the infinities cannot occur in JSON or in a query string, and
  the rounding errors of IEEE doubles are left out there. The arithmetic of the
  \<open>save\<close> hook of the product model is written out in IEEE doubles, in the section on
  that model. A string is a list of code units below 256.
  An object is an association list in property order; a property that is absent
  (\<open>undefined\<close> in JavaScript) is \<open>None\<close> wherever a property is read.
\<close>

datatype jsval =
    JNull
  | JBool bool
  | JNum real
  | JStr string
  | JArr "jsval list"
  | JObj "(string \<times> jsval) list"

type_synonym obj = "(string \<times> jsval) list"

text \<open>JavaScript truthiness, as used by \<open>&&\<close>, \<open>||\<close> and \<open>if\<close>.\<close>

fun truthy :: "jsval \<Rightarrow> bool" where
  "truthy JNull = False"
| "truthy (JBool b) = b"
| "truthy (JNum r) = (r \<noteq> 0)"
| "truthy (JStr s) = (s \<noteq> [])"
| "truthy (JArr _) = True"
| "truthy (JObj _) = True"

definition truthy_opt :: "jsval option \<Rightarrow> bool" where
  "truthy_opt v = (case v of None \<Rightarrow> False | Some x \<Rightarrow> truthy x)"

text \<open>\<open>Math.round\<close>: the nearest integer, a tie going up.\<close>

definition js_round :: "real \<Rightarrow> real" where
  "js_round x = of_int \<lfloor>x + 1 / 2\<rfloor>"

section \<open>The error handler (middleware/errorHandler.js)\<close>

text \<open>
  The thrown value \<open>err\<close>, with the properties the handler reads. \<open>code\<close>,
  \<open>statusCode\<close> and \<open>details\<close> are own enumerable properties when present, so the
  spread \<open>{ ...err }\<close> copies them; \<open>message\<close> is copied by the assignment that follows.
\<close>

record mongoose_field_error =
  fe_path :: string
  fe_message :: string
  fe_value :: "jsval option"

record js_error =
  err_name :: "string option"
  err_message :: "string option"
  err_code :: "jsval option"
  err_statusCode :: "jsval option"
  err_details :: "jsval option"
  err_keyValue :: "obj option"
  err_errors :: "mongoose_field_error list option"
  err_stack :: "string option"

text \<open>The local variable \<open>error\<close> of the handler.\<close>

record error_view =
  ev_message :: "string option"
  ev_code :: "jsval option"
  ev_statusCode :: "jsval option"
  ev_details :: "jsval option"

text \<open>The response: \<open>res.status(s).json({ success: false, error: { ... } })\<close>.\<close>

record envelope =
  status :: jsval
  success :: bool
  message :: string
  code :: jsval
  details :: "jsval option"
  stack :: "string option"

datatype js_exception = TypeError

text \<open>An object literal whose properties may be \<open>undefined\<close>: JSON drops those.\<close>

definition json_object :: "(string \<times> jsval option) list \<Rightarrow> jsval" where
  "json_object ps = JObj (List.map_filter (\<lambda>(k, v). map_option (Pair k) v) ps)"

definition field_error_json :: "mongoose_field_error \<Rightarrow> jsval" where
  "field_error_json val =
     json_object [(''field'', Some (JStr (fe_path val))),
                  (''message'', Some (JStr (fe_message val))),
                  (''value'', fe_value val)]"

text \<open>
  The branch for a duplicate key. \<open>Object.keys(err.keyValue)\<close> throws a TypeError when
  \<open>keyValue\<close> is undefined; on an empty object \<open>field\<close> is undefined and the template
  string prints it as \<open>undefined\<close>.
\<close>

definition duplicate_key_view :: "js_error \<Rightarrow> js_exception + error_view" where
  "duplicate_key_view err =
     (case err_keyValue err of
        None \<Rightarrow> Inl TypeError
      | Some kv \<Rightarrow>
          (let field = (case kv of [] \<Rightarrow> None | (k, _) # _ \<Rightarrow> Some k);
               msg = (case field of None \<Rightarrow> ''undefined'' | Some f \<Rightarrow> f) @ '' already exists''
           in Inr \<lparr>ev_message = Some msg,
                   ev_code = Some (JStr ''DUPLICATE_FIELD''),
                   ev_statusCode = Some (JNum 400),
                   ev_details = Some (json_object
                     [(''field'', map_option JStr field),
                      (''value'', (case field of None \<Rightarrow> None | Some f \<Rightarrow> map_of kv f))])\<rparr>))"

definition validation_error_view :: "js_error \<Rightarrow> js_exception + error_view" where
  "validation_error_view err =
     (case err_errors err of
        None \<Rightarrow> Inl TypeError
      | Some es \<Rightarrow>
          Inr \<lparr>ev_message = Some ''Validation failed'',
                ev_code = Some (JStr ''VALIDATION_ERROR''),
                ev_statusCode = Some (JNum 400),
                ev_details = Some (JArr (map field_error_json es))\<rparr>)"

text \<open>\<open>a || b\<close> on a possibly undefined \<open>a\<close>.\<close>

definition or_default :: "jsval option \<Rightarrow> jsval \<Rightarrow> jsval" where
  "or_default v d = (case v of None \<Rightarrow> d | Some x \<Rightarrow> if truthy x then x else d)"

definition send_envelope :: "string option \<Rightarrow> js_error \<Rightarrow> error_view \<Rightarrow> envelope" where
  "send_envelope node_env err error =
     \<lparr>status = or_default (ev_statusCode error) (JNum 500),
      success = False,
      message = (case ev_message error of
                   None \<Rightarrow> ''Internal Server Error''
                 | Some m \<Rightarrow> if m = [] then ''Internal Server Error'' else m),
      code = or_default (ev_code error) (JStr ''INTERNAL_ERROR''),
      details = (if truthy_opt (ev_details error) then ev_details error else None),
      stack = (if node_env = Some ''development'' then err_stack err else None)\<rparr>"

text \<open>
  The handler: the \<open>if\<close> statements run one after the other (none is an \<open>else\<close>), each
  replacing \<open>error\<close>; \<open>node_env\<close> is \<open>process.env.NODE_ENV\<close>.
\<close>

definition errorHandler :: "string option \<Rightarrow> js_error \<Rightarrow> js_exception + envelope" where
  "errorHandler node_env err =
     (let error0 = \<lparr>ev_message = err_message err, ev_code = err_code err,
                     ev_statusCode = err_statusCode err, ev_details = err_details err\<rparr>;
          error1 = (if err_name err = Some ''CastError''
                    then \<lparr>ev_message = Some ''Resource not found'',
                          ev_code = Some (JStr ''INVALID_ID''),
                          ev_statusCode = Some (JNum 404),
                          ev_details = None\<rparr>
                    else error0)
      in case (if err_code err = Some (JNum 11000) then duplicate_key_view err else Inr error1) of
           Inl e \<Rightarrow> Inl e
         | Inr error2 \<Rightarrow>
            (case (if err_name err = Some ''ValidationError''
                   then validation_error_view err else Inr error2) of
               Inl e \<Rightarrow> Inl e
             | Inr error3 \<Rightarrow>
                (let error4 = (if err_name err = Some ''JsonWebTokenError''
                               then \<lparr>ev_message = Some ''Invalid token'',
                                     ev_code = Some (JStr ''INVALID_TOKEN''),
                                     ev_statusCode = Some (JNum 401),
                                     ev_details = None\<rparr>
                               else error3);
                     error5 = (if err_name err = Some ''TokenExpiredError''
                               then \<lparr>ev_message = Some ''Token expired'',
                                     ev_code = Some (JStr ''TOKEN_EXPIRED''),
                                     ev_statusCode = Some (JNum 401),
                                     ev_details = None\<rparr>
                               else error4)
                 in Inr (send_envelope node_env err error5))))"

text \<open>
  The error Mongoose raises when \<open>findById\<close> is given an identifier that is not a
  well-formed ObjectId, and a failure nothing in the handler recognises.
\<close>

definition cast_error :: js_error where
  "cast_error =
     \<lparr>err_name = Some ''CastError'',
      err_message = Some ''Cast to ObjectId failed for value abc at path _id'',
      err_code = None, err_statusCode = None, err_details = None,
      err_keyValue = None, err_errors = None,
      err_stack = Some ''CastError: Cast to ObjectId failed''\<rparr>"



section \<open>Joi schemas (validation/schemas.js)\<close>

text \<open>
  The schemas are data: a base type, the rules in the order the source chains them, and
  the flags set by \<open>required\<close>, \<open>allow\<close>, \<open>valid\<close>, \<open>default\<close> and \<open>messages\<close>.
  \<open>Lmin\<close> and \<open>Lmax\<close> are \<open>min\<close> and \<open>max\<close>: on a string they bound its length, on a
  number its value.
\<close>

datatype base_type = TString | TNumber

datatype rule = Trim | Lmin real | Lmax real | Integer | Positive | Precision nat

record any_schema =
  base :: base_type
  rules :: "rule list"
  presence_required :: bool
  valids :: "jsval list"
  only :: bool
  default_value :: "jsval option"
  messages :: "(string \<times> string) list"

definition Joi_string :: any_schema where
  "Joi_string = \<lparr>base = TString, rules = [], presence_required = False, valids = [],
                  only = False, default_value = None, messages = []\<rparr>"

definition Joi_number :: any_schema where
  "Joi_number = \<lparr>base = TNumber, rules = [], presence_required = False, valids = [],
                  only = False, default_value = None, messages = []\<rparr>"

definition add_rule :: "rule \<Rightarrow> any_schema \<Rightarrow> any_schema" where
  "add_rule r s = s\<lparr>rules := rules s @ [r]\<rparr>"

definition required :: "any_schema \<Rightarrow> any_schema" where
  "required s = s\<lparr>presence_required := True\<rparr>"

definition optional :: "any_schema \<Rightarrow> any_schema" where
  "optional s = s\<lparr>presence_required := False\<rparr>"

definition allow :: "jsval list \<Rightarrow> any_schema \<Rightarrow> any_schema" where
  "allow vs s = s\<lparr>valids := valids s @ vs\<rparr>"

definition valid :: "jsval list \<Rightarrow> any_schema \<Rightarrow> any_schema" where
  "valid vs s = s\<lparr>valids := valids s @ vs, only := True\<rparr>"

definition default_to :: "jsval \<Rightarrow> any_schema \<Rightarrow> any_schema" where
  "default_to v s = s\<lparr>default_value := Some v\<rparr>"

definition with_messages :: "(string \<times> string) list \<Rightarrow> any_schema \<Rightarrow> any_schema" where
  "with_messages ms s = s\<lparr>messages := ms @ messages s\<rparr>"

text \<open>A method chain \<open>Joi.string().a().b()\<close>, applied left to right.\<close>

definition chain :: "any_schema \<Rightarrow> (any_schema \<Rightarrow> any_schema) list \<Rightarrow> any_schema" where
  "chain s fs = foldl (\<lambda>a f. f a) s fs"

text \<open>
  A rule of an object schema: \<open>min(n)\<close>, or \<open>custom(f)\<close>, where \<open>f\<close> returns either the
  report of \<open>helpers.error(code)\<close> or a value.
\<close>

datatype custom_result = CustomError string | CustomValue obj

datatype object_rule = ObjectMin nat | Custom "obj \<Rightarrow> custom_result"

record object_schema =
  keys :: "(string \<times> any_schema) list"
  object_rules :: "object_rule list"

subsection \<open>The product schemas\<close>

definition createProductSchema :: object_schema where
  "createProductSchema =
     \<lparr>keys =
        [(''name'', chain Joi_string
            [add_rule Trim, add_rule (Lmin 1), add_rule (Lmax 100), required,
             with_messages
               [(''string.empty'', ''Product name is required''),
                (''string.min'', ''Product name must be at least 1 character''),
                (''string.max'', ''Product name cannot exceed 100 characters''),
                (''any.required'', ''Product name is required'')]]),
         (''description'', chain Joi_string
            [add_rule Trim, add_rule (Lmax 500), allow [JStr []], optional,
             with_messages
               [(''string.max'', ''Description cannot exceed 500 characters'')]]),
         (''price'', chain Joi_number
            [add_rule Positive, add_rule (Precision 2), required,
             with_messages
               [(''number.positive'', ''Price must be a positive number''),
                (''number.precision'', ''Price cannot have more than 2 decimal places''),
                (''any.required'', ''Product price is required'')]]),
         (''category'', chain Joi_string
            [add_rule Trim, add_rule (Lmin 1), required,
             with_messages
               [(''string.empty'', ''Product category is required''),
                (''string.min'', ''Product category is required''),
                (''any.required'', ''Product category is required'')]]),
         (''stock'', chain Joi_number
            [add_rule Integer, add_rule (Lmin 0), required,
             with_messages
               [(''number.integer'', ''Stock must be an integer''),
                (''number.min'', ''Stock cannot be negative''),
                (''any.required'', ''Stock quantity is required'')]])],
      object_rules = []\<rparr>"

definition updateProductSchema :: object_schema where
  "updateProductSchema =
     \<lparr>keys =
        [(''name'', chain Joi_string
            [add_rule Trim, add_rule (Lmin 1), add_rule (Lmax 100), optional,
             with_messages
               [(''string.empty'', ''Product name cannot be empty''),
                (''string.min'', ''Product name must be at least 1 character''),
                (''string.max'', ''Product name cannot exceed 100 characters'')]]),
         (''description'', chain Joi_string
            [add_rule Trim, add_rule (Lmax 500), allow [JStr []], optional,
             with_messages
               [(''string.max'', ''Description cannot exceed 500 characters'')]]),
         (''price'', chain Joi_number
            [add_rule Positive, add_rule (Precision 2), optional,
             with_messages
               [(''number.positive'', ''Price must be a positive number''),
                (''number.precision'', ''Price cannot have more than 2 decimal places'')]]),
         (''category'', chain Joi_string
            [add_rule Trim, add_rule (Lmin 1), optional,
             with_messages
               [(''string.empty'', ''Product category cannot be empty''),
                (''string.min'', ''Product category cannot be empty'')]]),
         (''stock'', chain Joi_number
            [add_rule Integer, add_rule (Lmin 0), optional,
             with_messages
               [(''number.integer'', ''Stock must be an integer''),
                (''number.min'', ''Stock cannot be negative'')]])],
      object_rules = [ObjectMin 1]\<rparr>"

text \<open>
  The relational comparison \<open>a < b\<close> of the custom rule. The rule runs only when every
  key has validated, so \<open>minPrice\<close> and \<open>maxPrice\<close> are numbers there or undefined; a
  comparison with \<open>undefined\<close> is false, and so is the one written here for the other
  types, which the rule never sees.
\<close>

fun js_less :: "jsval option \<Rightarrow> jsval option \<Rightarrow> bool" where
  "js_less (Some (JNum a)) (Some (JNum b)) = (a < b)"
| "js_less _ _ = False"

definition price_range_rule :: "obj \<Rightarrow> custom_result" where
  "price_range_rule v =
     (if truthy_opt (map_of v ''minPrice'') \<and> truthy_opt (map_of v ''maxPrice'')
         \<and> js_less (map_of v ''maxPrice'') (map_of v ''minPrice'')
      then CustomError ''any.invalid''
      else CustomValue v)"

definition sort_whitelist :: "jsval list" where
  "sort_whitelist =
     [JStr ''name'', JStr ''price'', JStr ''category'', JStr ''stock'', JStr ''createdAt'',
      JStr ''updatedAt'', JStr ''-name'', JStr ''-price'', JStr ''-category'',
      JStr ''-stock'', JStr ''-createdAt'', JStr ''-updatedAt'']"

definition querySchema :: object_schema where
  "querySchema =
     \<lparr>keys =
        [(''page'', chain Joi_number [add_rule Integer, add_rule (Lmin 1), default_to (JNum 1)]),
         (''limit'', chain Joi_number
            [add_rule Integer, add_rule (Lmin 1), add_rule (Lmax 100), default_to (JNum 10)]),
         (''sort'', chain Joi_string [valid sort_whitelist, default_to (JStr ''-createdAt'')]),
         (''category'', chain Joi_string [add_rule Trim]),
         (''minPrice'', chain Joi_number [add_rule (Lmin 0)]),
         (''maxPrice'', chain Joi_number [add_rule (Lmin 0)]),
         (''search'', chain Joi_string [add_rule Trim, add_rule (Lmax 100)])],
      object_rules = [Custom price_range_rule]\<rparr>"

section \<open>How Joi validates\<close>

text \<open>
  Joi is a library outside the repository; this section writes out what its validator
  does with the schemas above under the preferences the middleware passes. The
  conversion of a string to a number (Joi accepts a decimal literal with an optional
  exponent and refuses one that a double cannot hold) is a parameter of the model:
  every theorem holds for every such conversion.
\<close>

record prefs =
  abortEarly :: bool
  allowUnknown :: bool
  stripUnknown :: bool
  convert :: bool

datatype coerced = NoMatch | Unsafe | Parsed real

type_synonym number_coercion = "string \<Rightarrow> coerced"

text \<open>
  One entry of \<open>error.details\<close>: the path, Joi's error code (\<open>type\<close>), the message, and
  \<open>context.value\<close>. The message is the text the schema gives for the code with
  \<open>messages\<close>, or else Joi's own text for that code.
\<close>

datatype joi_message = Text string | JoiDefault string

record detail =
  d_path :: "string list"
  d_type :: string
  d_message :: joi_message
  d_value :: "jsval option"

definition create_error ::
  "(string \<times> string) list \<Rightarrow> string list \<Rightarrow> string \<Rightarrow> jsval option \<Rightarrow> detail" where
  "create_error msgs path c v =
     \<lparr>d_path = path, d_type = c,
      d_message = (case map_of msgs c of Some m \<Rightarrow> Text m | None \<Rightarrow> JoiDefault c),
      d_value = v\<rparr>"

text \<open>\<open>String.prototype.trim\<close>, on code units below 256.\<close>

definition is_space :: "char \<Rightarrow> bool" where
  "is_space c = ((of_char c :: nat) \<in> {9, 10, 11, 12, 13, 32, 160})"

definition js_trim :: "string \<Rightarrow> string" where
  "js_trim s = rev (dropWhile is_space (rev (dropWhile is_space s)))"

definition MAX_SAFE_INTEGER :: real where
  "MAX_SAFE_INTEGER = 9007199254740991"

definition is_integer :: "real \<Rightarrow> bool" where
  "is_integer r = (of_int \<lfloor>r\<rfloor> = r)"

definition precision_limit :: "rule list \<Rightarrow> nat option" where
  "precision_limit rs =
     (case List.map_filter (\<lambda>r. case r of Precision l \<Rightarrow> Some l | _ \<Rightarrow> None) rs of
        [] \<Rightarrow> None | l # _ \<Rightarrow> Some l)"

text \<open>
  The coercion step, run when \<open>convert\<close> is on and the value is a string: a string
  schema with \<open>trim\<close> trims it, a number schema converts it. A string that is no number
  is left as it is (and fails the base type later); an unsafe one is an error at once.
\<close>

definition coerce_value ::
  "prefs \<Rightarrow> number_coercion \<Rightarrow> any_schema \<Rightarrow> jsval \<Rightarrow> string + jsval" where
  "coerce_value p cn sch v =
     (if convert p then
        (case v of
           JStr s \<Rightarrow>
             (case base sch of
                TString \<Rightarrow> Inr (JStr (if Trim \<in> set (rules sch) then js_trim s else s))
              | TNumber \<Rightarrow>
                  (case cn s of
                     NoMatch \<Rightarrow> Inr v
                   | Unsafe \<Rightarrow> Inl ''number.unsafe''
                   | Parsed r \<Rightarrow> Inr (JNum r)))
         | _ \<Rightarrow> Inr v)
      else Inr v)"

text \<open>
  The base type: the value and, when the type refuses it, the code. A number schema
  with \<open>precision\<close> rounds the value here when \<open>convert\<close> is on; the rounding is
  written over the reals, without the rounding error of the doubles Joi computes in.
\<close>

definition base_validate :: "prefs \<Rightarrow> any_schema \<Rightarrow> jsval \<Rightarrow> jsval \<times> string option" where
  "base_validate p sch v =
     (case base sch of
        TString \<Rightarrow>
          (case v of
             JStr s \<Rightarrow>
               (if s = [] \<and> Lmin 0 \<notin> set (rules sch) then (v, Some ''string.empty'')
                else (v, None))
           | _ \<Rightarrow> (v, Some ''string.base''))
      | TNumber \<Rightarrow>
          (case v of
             JNum r \<Rightarrow>
               (let r' = (case (if convert p then precision_limit (rules sch) else None) of
                            Some l \<Rightarrow> js_round (r * 10 ^ l) / 10 ^ l
                          | None \<Rightarrow> r)
                in (JNum r',
                    if r > MAX_SAFE_INTEGER \<or> r < - MAX_SAFE_INTEGER
                    then Some ''number.unsafe'' else None))
           | _ \<Rightarrow> (v, Some ''number.base'')))"

text \<open>
  One rule on a value of the right base type: the code of its error, if any. \<open>trim\<close>
  and \<open>precision\<close> are skipped when \<open>convert\<close> is on, the value having been converted.
\<close>

fun rule_error :: "prefs \<Rightarrow> rule \<Rightarrow> jsval \<Rightarrow> string option" where
  "rule_error p Trim (JStr s) =
     (if convert p \<or> js_trim s = s then None else Some ''string.trim'')"
| "rule_error p (Lmin l) (JStr s) =
     (if l \<le> real (length s) then None else Some ''string.min'')"
| "rule_error p (Lmax l) (JStr s) =
     (if real (length s) \<le> l then None else Some ''string.max'')"
| "rule_error p (Lmin l) (JNum r) = (if l \<le> r then None else Some ''number.min'')"
| "rule_error p (Lmax l) (JNum r) = (if r \<le> l then None else Some ''number.max'')"
| "rule_error p Integer (JNum r) = (if is_integer r then None else Some ''number.integer'')"
| "rule_error p Positive (JNum r) = (if 0 < r then None else Some ''number.positive'')"
| "rule_error p (Precision l) (JNum r) =
     (if convert p \<or> is_integer (r * 10 ^ l) then None else Some ''number.precision'')"
| "rule_error p _ _ = None"

text \<open>
  One key of an object: the value of the key (\<open>None\<close> when undefined) and its errors.
  An error of the coercion or of the base type ends the validation of the key; the
  rules all run and each adds its error.
\<close>

definition validate_any ::
  "prefs \<Rightarrow> number_coercion \<Rightarrow> string list \<Rightarrow> any_schema \<Rightarrow> jsval option
     \<Rightarrow> jsval option \<times> detail list" where
  "validate_any p cn path sch item =
     (let err = create_error (messages sch) path in
      case item of
        None \<Rightarrow>
          (if presence_required sch then (None, [err ''any.required'' None])
           else (default_value sch, []))
      | Some raw \<Rightarrow>
          (case coerce_value p cn sch raw of
             Inl c \<Rightarrow> (Some raw, [err c (Some raw)])
           | Inr v \<Rightarrow>
               (if v \<in> set (valids sch) then (Some v, [])
                else
                  (let only_errors = (if only sch then [err ''any.only'' (Some v)] else [])
                   in case base_validate p sch v of
                        (v', Some c) \<Rightarrow> (Some v', only_errors @ [err c (Some v)])
                      | (v', None) \<Rightarrow>
                          (Some v',
                           only_errors @
                           List.map_filter
                             (\<lambda>r. map_option (\<lambda>c. err c (Some v')) (rule_error p r v'))
                             (rules sch))))))"

text \<open>
  What the validation of a key does to the (cloned) object: a defined result is stored,
  and a key whose result is undefined although a value was given is deleted.
\<close>

definition store_result :: "obj \<Rightarrow> string \<times> jsval option \<times> jsval option \<times> detail list \<Rightarrow> obj" where
  "store_result value r =
     (case r of (key, item, result, errors) \<Rightarrow>
        (case result of
           Some v \<Rightarrow> AList.update key v value
         | None \<Rightarrow> if errors = [] \<and> item \<noteq> None then AList.delete key value else value))"

definition key_results ::
  "prefs \<Rightarrow> number_coercion \<Rightarrow> object_schema \<Rightarrow> obj
     \<Rightarrow> (string \<times> jsval option \<times> jsval option \<times> detail list) list" where
  "key_results p cn sch input =
     map (\<lambda>(key, child).
            (case validate_any p cn [key] child (map_of input key) of
               (result, errors) \<Rightarrow> (key, map_of input key, result, errors)))
         (keys sch)"

text \<open>The rules of the object, on the value its keys have produced.\<close>

fun run_object_rules :: "object_rule list \<Rightarrow> obj \<Rightarrow> obj \<times> detail list" where
  "run_object_rules [] v = (v, [])"
| "run_object_rules (ObjectMin n # rs) v =
     (case run_object_rules rs v of
        (v', es) \<Rightarrow>
          (v', (if n \<le> length v then []
                else [create_error [] [] ''object.min'' (Some (JObj v))]) @ es))"
| "run_object_rules (Custom f # rs) v =
     (case f v of
        CustomError c \<Rightarrow>
          (case run_object_rules rs v of
             (v', es) \<Rightarrow> (v', create_error [] [] c (Some (JObj v)) # es))
      | CustomValue v1 \<Rightarrow> run_object_rules rs v1)"

text \<open>
  An object schema on an object: every key of the schema in turn, then the keys the
  schema does not know (stripped, or refused), then, when no key has failed, the rules
  of the object. The result is the normalised value and every error found.
\<close>

definition collect :: "prefs \<Rightarrow> number_coercion \<Rightarrow> object_schema \<Rightarrow> obj \<Rightarrow> obj \<times> detail list" where
  "collect p cn sch input =
     (let results = key_results p cn sch input;
          value1 = foldl store_result (AList.clearjunk input) results;
          known = set (map fst (keys sch));
          value2 = (if stripUnknown p then AList.restrict known value1 else value1);
          unknown_errors =
            (if allowUnknown p then []
             else map (\<lambda>(k, v). create_error [] [k] ''object.unknown'' (Some v))
                      (filter (\<lambda>(k, v). k \<notin> known) value2));
          errors = concat (map (\<lambda>(key, item, result, es). es) results) @ unknown_errors
      in if errors \<noteq> [] then (value2, errors)
         else run_object_rules (object_rules sch) value2)"

text \<open>\<open>schema.validate(input, prefs)\<close>: with \<open>abortEarly\<close> only the first error is kept.\<close>

definition schema_validate ::
  "prefs \<Rightarrow> number_coercion \<Rightarrow> object_schema \<Rightarrow> obj \<Rightarrow> obj \<times> detail list" where
  "schema_validate p cn sch input =
     (case collect p cn sch input of
        (value, errors) \<Rightarrow> (value, if abortEarly p then take 1 errors else errors))"

section \<open>The Validation Gate (middleware/validation.js)\<close>

datatype property = Body | Query

record request =
  body :: obj
  query :: obj

definition get_property :: "property \<Rightarrow> request \<Rightarrow> obj" where
  "get_property pr req = (case pr of Body \<Rightarrow> body req | Query \<Rightarrow> query req)"

definition set_property :: "property \<Rightarrow> obj \<Rightarrow> request \<Rightarrow> request" where
  "set_property pr v req = (case pr of Body \<Rightarrow> req\<lparr>body := v\<rparr> | Query \<Rightarrow> req\<lparr>query := v\<rparr>)"

record violation =
  field :: string
  v_message :: joi_message
  v_value :: "jsval option"

record gate_response =
  g_status :: nat
  g_success :: bool
  g_message :: string
  g_code :: string
  g_details :: "violation list"

text \<open>The middleware either answers itself or calls \<open>next()\<close> on the updated request.\<close>

datatype outcome = Respond gate_response | Next request

text \<open>\<open>path.join('.')\<close>\<close>

fun join_dots :: "string list \<Rightarrow> string" where
  "join_dots [] = []"
| "join_dots [x] = x"
| "join_dots (x # y # ys) = x @ ''.'' @ join_dots (y # ys)"

definition to_violation :: "detail \<Rightarrow> violation" where
  "to_violation d =
     \<lparr>field = join_dots (d_path d), v_message = d_message d, v_value = d_value d\<rparr>"

text \<open>The options of the call in the middleware; \<open>convert\<close> is left at Joi's default.\<close>

definition gate_prefs :: prefs where
  "gate_prefs = \<lparr>abortEarly = False, allowUnknown = False, stripUnknown = True, convert = True\<rparr>"

text \<open>The answer \<open>res.status(400).json({ success: false, error: { ... } })\<close>.\<close>

definition validation_failed :: "violation list \<Rightarrow> gate_response" where
  "validation_failed errors =
     \<lparr>g_status = 400, g_success = False, g_message = ''Validation failed'',
      g_code = ''VALIDATION_ERROR'', g_details = errors\<rparr>"

definition validate ::
  "number_coercion \<Rightarrow> object_schema \<Rightarrow> property \<Rightarrow> request \<Rightarrow> outcome" where
  "validate cn schema pr req =
     (case schema_validate gate_prefs cn schema (get_property pr req) of
        (value, errors) \<Rightarrow>
          (if errors \<noteq> [] then Respond (validation_failed (map to_violation errors))
           else Next (set_property pr value req)))"

text \<open>
  Reading an outcome: whether the gate has answered HTTP 400 with the kind
  \<open>VALIDATION_ERROR\<close> (the handler is then not called), and the violations it lists.
\<close>

definition rejected :: "outcome \<Rightarrow> bool" where
  "rejected out =
     (case out of
        Respond r \<Rightarrow> g_status r = 400 \<and> g_code r = ''VALIDATION_ERROR'' \<and> \<not> g_success r
      | Next _ \<Rightarrow> False)"

definition violations :: "outcome \<Rightarrow> violation list" where
  "violations out = (case out of Respond r \<Rightarrow> g_details r | Next _ \<Rightarrow> [])"

text \<open>
  The two parts of what the validator computes under the options of the gate: the errors
  of the keys, in the order of the schema, and the object with every key validated and
  the unknown keys stripped.
\<close>

definition key_errors :: "number_coercion \<Rightarrow> object_schema \<Rightarrow> obj \<Rightarrow> detail list" where
  "key_errors cn sch input =
     concat (map (\<lambda>(k, child). snd (validate_any gate_prefs cn [k] child (map_of input k)))
                 (keys sch))"

definition normalised :: "number_coercion \<Rightarrow> object_schema \<Rightarrow> obj \<Rightarrow> obj" where
  "normalised cn sch input =
     AList.restrict (set (map fst (keys sch)))
       (foldl store_result (AList.clearjunk input) (key_results gate_prefs cn sch input))"

text \<open>
  What the update schema accepts as the value of a field: a name of 1 to 100 characters
  once trimmed, a description of at most 500, a price that is positive once rounded to
  two decimals, a category that is not empty once trimmed, a stock that is a
  non-negative integer; numbers within the safe integers.
\<close>

definition update_field_ok :: "string \<Rightarrow> jsval \<Rightarrow> bool" where
  "update_field_ok k v =
     (case v of
        JStr s \<Rightarrow>
          (k = ''name'' \<and> js_trim s \<noteq> [] \<and> length (js_trim s) \<le> 100)
          \<or> (k = ''description'' \<and> length (js_trim s) \<le> 500)
          \<or> (k = ''category'' \<and> js_trim s \<noteq> [])
      | JNum r \<Rightarrow>
          (k = ''price'' \<and> 5 / 1000 \<le> r \<and> r \<le> MAX_SAFE_INTEGER)
          \<or> (k = ''stock'' \<and> is_integer r \<and> 0 \<le> r \<and> r \<le> MAX_SAFE_INTEGER)
      | _ \<Rightarrow> False)"

definition product_fields :: "string list" where
  "product_fields = [''name'', ''description'', ''price'', ''category'', ''stock'']"

text \<open>
  A conversion for the examples: it reads a string of decimal digits, as Joi does, and
  takes nothing else for a number.
\<close>

definition digit_value :: "char \<Rightarrow> nat" where
  "digit_value c = of_char c - 48"

definition is_digit :: "char \<Rightarrow> bool" where
  "is_digit c = (48 \<le> (of_char c :: nat) \<and> (of_char c :: nat) \<le> 57)"

definition digits_only :: number_coercion where
  "digits_only s =
     (if s \<noteq> [] \<and> list_all is_digit s
      then Parsed (real (foldl (\<lambda>n c. 10 * n + digit_value c) 0 s))
      else NoMatch)"

section \<open>IEEE doubles\<close>

text \<open>
  The prices of the product model are JavaScript numbers, and the \<open>save\<close> hook computes
  with them: a double is a real number of the binary64 format, an infinity or \<open>NaN\<close>.
  The sign of zero is left out (\<open>0\<close> and \<open>-0\<close> are equal and both falsy in JavaScript).
\<close>

datatype double = Finite real | PlusInfinity | MinusInfinity | NaN

text \<open>
  The exponent of a real number in the format: the \<open>e\<close> with \<open>2^e \<le> |z| < 2^(e+1)\<close>,
  found by halving a number of 2 or more and doubling one below 1, and kept between
  \<open>-1022\<close> (below it the numbers are subnormal) and \<open>1024\<close> (from where they overflow).
\<close>

fun halvings :: "nat \<Rightarrow> real \<Rightarrow> nat" where
  "halvings 0 a = 0"
| "halvings (Suc k) a = (if 2 \<le> a then Suc (halvings k (a / 2)) else 0)"

fun doublings :: "nat \<Rightarrow> real \<Rightarrow> nat" where
  "doublings 0 a = 0"
| "doublings (Suc k) a = (if a < 1 then Suc (doublings k (2 * a)) else 0)"

definition exponent :: "real \<Rightarrow> int" where
  "exponent z = (if 1 \<le> \<bar>z\<bar> then int (halvings 1024 \<bar>z\<bar>) else - int (doublings 1022 \<bar>z\<bar>))"

text \<open>
  Rounding to the nearest double, a tie going to the even mantissa: the doubles of
  exponent \<open>e\<close> are the multiples of \<open>2^(e - 52)\<close>. The result overflows to an infinity
  when it reaches \<open>2^1024\<close>, that is when 1024 halvings leave it at 2 or more.
\<close>

definition round_half_even :: "real \<Rightarrow> int" where
  "round_half_even m =
     (if m - of_int \<lfloor>m\<rfloor> < 1 / 2 then \<lfloor>m\<rfloor>
      else if 1 / 2 < m - of_int \<lfloor>m\<rfloor> then \<lfloor>m\<rfloor> + 1
      else if even \<lfloor>m\<rfloor> then \<lfloor>m\<rfloor> else \<lfloor>m\<rfloor> + 1)"

definition nearest :: "real \<Rightarrow> real" where
  "nearest z = of_int (round_half_even (z / 2 powi (exponent z - 52))) * 2 powi (exponent z - 52)"

definition overflows :: "real \<Rightarrow> bool" where
  "overflows r = (halvings 1024 \<bar>r\<bar> = 1024)"

definition to_double :: "real \<Rightarrow> double" where
  "to_double z =
     (if overflows (nearest z) then (if 0 < z then PlusInfinity else MinusInfinity)
      else Finite (nearest z))"

text \<open>Multiplication and division: the exact result, rounded; the special values as IEEE 754 has them.\<close>

definition infinity_of_sign :: "real \<Rightarrow> double" where
  "infinity_of_sign s = (if s = 0 then NaN else if 0 < s then PlusInfinity else MinusInfinity)"

fun fmul :: "double \<Rightarrow> double \<Rightarrow> double" where
  "fmul NaN _ = NaN"
| "fmul _ NaN = NaN"
| "fmul (Finite a) (Finite b) = to_double (a * b)"
| "fmul (Finite a) PlusInfinity = infinity_of_sign a"
| "fmul (Finite a) MinusInfinity = infinity_of_sign (- a)"
| "fmul PlusInfinity (Finite b) = infinity_of_sign b"
| "fmul MinusInfinity (Finite b) = infinity_of_sign (- b)"
| "fmul PlusInfinity PlusInfinity = PlusInfinity"
| "fmul PlusInfinity MinusInfinity = MinusInfinity"
| "fmul MinusInfinity PlusInfinity = MinusInfinity"
| "fmul MinusInfinity MinusInfinity = PlusInfinity"

fun fdiv :: "double \<Rightarrow> double \<Rightarrow> double" where
  "fdiv NaN _ = NaN"
| "fdiv _ NaN = NaN"
| "fdiv (Finite a) (Finite b) = (if b = 0 then infinity_of_sign a else to_double (a / b))"
| "fdiv (Finite a) _ = Finite 0"
| "fdiv PlusInfinity (Finite b) = (if 0 \<le> b then PlusInfinity else MinusInfinity)"
| "fdiv MinusInfinity (Finite b) = (if 0 \<le> b then MinusInfinity else PlusInfinity)"
| "fdiv _ _ = NaN"

text \<open>
  \<open>Math.round\<close> gives the nearest integer, a tie going up; it is exact, since the
  integer nearest to a double is a double. Truthiness: \<open>0\<close> and \<open>NaN\<close> are falsy.
\<close>

fun Math_round :: "double \<Rightarrow> double" where
  "Math_round (Finite a) = Finite (js_round a)"
| "Math_round x = x"

fun truthy_number :: "double \<Rightarrow> bool" where
  "truthy_number (Finite a) = (a \<noteq> 0)"
| "truthy_number NaN = False"
| "truthy_number _ = True"

section \<open>The product model (models/Product.js)\<close>

text \<open>
  A product document as the \<open>save\<close> hooks see it: Mongoose validates before it runs
  them, so \<open>price\<close> and \<open>stock\<close> are numbers.
\<close>

record product =
  name :: string
  description :: "string option"
  price :: double
  category :: string
  stock :: double

text \<open>
  The \<open>pre('save')\<close> hook: \<open>if (this.price) this.price = Math.round(this.price * 100) / 100\<close>.
\<close>

definition pre_save :: "product \<Rightarrow> product" where
  "pre_save this =
     (if truthy_number (price this)
      then this\<lparr>price := fdiv (Math_round (fmul (price this) (Finite 100))) (Finite 100)\<rparr>
      else this)"

section \<open>Listing products\<close>

text \<open>
  Modelled from the spec: the product controller (controllers/productController.js),
  which builds the filter, the sort order and the page, is not among the sources. The
  spec: the result is the slice from \<open>(page - 1) * limit\<close> to \<open>page * limit\<close> of the
  filtered and sorted products, with the metadata page, limit, the count of all
  matching products, and \<open>totalPages = ceil(total / limit)\<close>. The filter and the
  order are parameters.
\<close>

record pagination =
  pg_page :: nat
  pg_limit :: nat
  pg_total :: nat
  pg_totalPages :: nat

definition list_products ::
  "('p \<Rightarrow> bool) \<Rightarrow> ('p list \<Rightarrow> 'p list) \<Rightarrow> 'p list \<Rightarrow> nat \<Rightarrow> nat \<Rightarrow> 'p list \<times> pagination" where
  "list_products matches order store page limit =
     (let results = order (filter matches store);
          total = length results
      in (take limit (drop ((page - 1) * limit) results),
          \<lparr>pg_page = page, pg_limit = limit, pg_total = total,
           pg_totalPages = nat \<lceil>real total / real limit\<rceil>\<rparr>))"

text \<open>The elements of a list at the positions from \<open>a\<close> up to, not including, \<open>b\<close>.\<close>

definition slice :: "'a list \<Rightarrow> nat \<Rightarrow> nat \<Rightarrow> 'a list" where
  "slice xs a b = map (nth xs) [a ..< min b (length xs)]"

section \<open>Example requests\<close>

text \<open>
  \<open>GET /products?minPrice=5&maxPrice=0\<close>; a create payload whose price has three
  decimals; and a create payload that breaks a rule in each of four fields.
\<close>

definition zero_max_query :: request where
  "zero_max_query = \<lparr>body = [], query = [(''minPrice'', JStr ''5''), (''maxPrice'', JStr ''0'')]\<rparr>"

definition three_decimals_body :: obj where
  "three_decimals_body =
     [(''name'', JStr ''Widget''), (''price'', JNum 10.999), (''category'', JStr ''Tools''),
      (''stock'', JNum 1)]"

text \<open>A product with a given price.\<close>

definition priced :: "double \<Rightarrow> product" where
  "priced p = \<lparr>name = ''Widget'', description = None, price = p, category = ''Tools'',
               stock = Finite 1\<rparr>"

definition invalid_create_body :: obj where
  "invalid_create_body = [(''name'', JStr ''''), (''price'', JNum (- 10)), (''stock'', JNum (- 5))]"

section \<open>Properties of the error handler\<close>

text \<open>
  C2, as the code has it. A malformed identifier reaches the handler as a CastError,
  and the handler answers HTTP 404 with the kind \<open>INVALID_ID\<close>: the status of a
  product that is not found, under a kind of its own.
\<close>

theorem cast_error_is_invalid_id:
  assumes "err_name err = Some ''CastError''" and "err_code err \<noteq> Some (JNum 11000)"
  shows "\<exists>r. errorHandler node_env err = Inr r \<and> status r = JNum 404
             \<and> code r = JStr ''INVALID_ID'' \<and> message r = ''Resource not found''
             \<and> details r = None"
  using assms
  by (simp add: errorHandler_def send_envelope_def or_default_def truthy_opt_def)

theorem cast_error_is_invalid_id_witness:
  "err_name cast_error = Some ''CastError'' \<and> err_code cast_error \<noteq> Some (JNum 11000)
   \<and> (\<exists>r. errorHandler (Some ''production'') cast_error = Inr r \<and> status r = JNum 404
            \<and> code r = JStr ''INVALID_ID'' \<and> message r = ''Resource not found''
            \<and> details r = None)"
proof -
  have n: "err_name cast_error = Some ''CastError''"
    by (simp add: cast_error_def)
  have c: "err_code cast_error \<noteq> Some (JNum 11000)"
    by (simp add: cast_error_def)
  from cast_error_is_invalid_id [OF n c, of "Some ''production''"] n c
  show ?thesis by blast
qed

text \<open>
  The claim C2 as stated fails: the kind sent for a malformed identifier is not
  \<open>PRODUCT_NOT_FOUND\<close>.
\<close>

theorem cast_error_not_product_not_found:
  "\<not> (\<exists>r. errorHandler (Some ''production'') cast_error = Inr r
          \<and> code r = JStr ''PRODUCT_NOT_FOUND'')"
  by (simp add: errorHandler_def send_envelope_def or_default_def truthy_opt_def
      cast_error_def)




section \<open>The validator under the options of the gate\<close>

lemma map_of_store_result:
  "map_of (store_result v (k, item, res, es)) k' =
     (if k' = k
      then (case res of Some x \<Rightarrow> Some x
            | None \<Rightarrow> if es = [] \<and> item \<noteq> None then None else map_of v k)
      else map_of v k')"
  by (auto simp: store_result_def update_conv' delete_conv' split: option.splits)

lemma map_of_foldl_store_other:
  "k \<notin> fst ` set rs \<Longrightarrow> map_of (foldl store_result v rs) k = map_of v k"
proof (induction rs arbitrary: v)
  case Nil
  then show ?case by simp
next
  case (Cons r rs)
  obtain k' item res es where r: "r = (k', item, res, es)"
    by (cases r) auto
  from Cons.prems have "k \<noteq> k'" and "k \<notin> fst ` set rs"
    by (auto simp: r)
  then show ?case
    using Cons.IH [of "store_result v r"] by (simp add: r map_of_store_result)
qed

lemma map_of_foldl_store:
  assumes "distinct (map fst rs)" and "(k, item, res, es) \<in> set rs"
  shows "map_of (foldl store_result v rs) k =
           (case res of Some x \<Rightarrow> Some x
            | None \<Rightarrow> if es = [] \<and> item \<noteq> None then None else map_of v k)"
  using assms
proof (induction rs arbitrary: v)
  case Nil
  then show ?case by simp
next
  case (Cons r rs)
  show ?case
  proof (cases "r = (k, item, res, es)")
    case True
    with Cons.prems(1) have "k \<notin> fst ` set rs" by auto
    then show ?thesis
      by (simp add: True map_of_foldl_store_other map_of_store_result)
  next
    case False
    with Cons.prems have mem: "(k, item, res, es) \<in> set rs" and d: "distinct (map fst rs)"
      and ne: "fst r \<noteq> k"
      by (auto simp: image_iff)
    obtain k' item' res' es' where r: "r = (k', item', res', es')"
      by (cases r) auto
    from ne have same: "map_of (store_result v r) k = map_of v k"
      by (simp add: r map_of_store_result)
    have "map_of (foldl store_result v (r # rs)) k
            = map_of (foldl store_result (store_result v r) rs) k"
      by simp
    also note Cons.IH [OF d mem, of "store_result v r"]
    finally show ?thesis
      by (simp only: same)
  qed
qed

lemma fst_key_results: "map fst (key_results p cn sch input) = map fst (keys sch)"
  by (simp add: key_results_def case_prod_unfold split: prod.splits)

lemma key_results_member:
  assumes "(k, child) \<in> set (keys sch)"
  shows "(k, map_of input k, fst (validate_any p cn [k] child (map_of input k)),
          snd (validate_any p cn [k] child (map_of input k))) \<in> set (key_results p cn sch input)"
  using assms by (force simp: key_results_def split: prod.splits)

lemma concat_key_results:
  "concat (map (\<lambda>(key, item, result, es). es) (key_results gate_prefs cn sch input))
     = key_errors cn sch input"
  by (simp add: key_results_def key_errors_def comp_def case_prod_unfold split: prod.splits)

lemma no_unknown_left: "filter (\<lambda>(k, v). k \<notin> A) (AList.restrict A al) = []"
  by (induction al) (auto simp: AList.restrict_eq)

lemma gate_prefs_simps:
  "abortEarly gate_prefs = False" "allowUnknown gate_prefs = False"
  "stripUnknown gate_prefs = True" "convert gate_prefs = True"
  by (simp_all add: gate_prefs_def)

lemma collect_gate:
  "collect gate_prefs cn sch input =
     (if key_errors cn sch input \<noteq> [] then (normalised cn sch input, key_errors cn sch input)
      else run_object_rules (object_rules sch) (normalised cn sch input))"
  by (simp add: collect_def Let_def concat_key_results no_unknown_left normalised_def
         gate_prefs_simps del: concat_eq_Nil_conv)

lemma schema_validate_gate:
  "schema_validate gate_prefs cn sch input = collect gate_prefs cn sch input"
  by (simp add: schema_validate_def gate_prefs_simps split: prod.splits)

lemma validate_cases:
  "validate cn sch pr req =
     (if key_errors cn sch (get_property pr req) \<noteq> []
      then Respond (validation_failed (map to_violation (key_errors cn sch (get_property pr req))))
      else (case run_object_rules (object_rules sch) (normalised cn sch (get_property pr req)) of
              (value, es) \<Rightarrow>
                if es \<noteq> [] then Respond (validation_failed (map to_violation es))
                else Next (set_property pr value req)))"
  by (simp add: validate_def schema_validate_gate collect_gate split: prod.splits)

lemma key_errors_member:
  assumes "(k, child) \<in> set (keys sch)"
    and "d \<in> set (snd (validate_any gate_prefs cn [k] child (map_of input k)))"
  shows "d \<in> set (key_errors cn sch input)"
  using assms by (auto simp: key_errors_def intro!: bexI [of _ "(k, child)"])

lemma key_errors_Nil:
  assumes "key_errors cn sch input = []" and "(k, child) \<in> set (keys sch)"
  shows "snd (validate_any gate_prefs cn [k] child (map_of input k)) = []"
  using assms by (auto simp: key_errors_def)

lemma rejected_failed [simp]: "rejected (Respond (validation_failed vs))"
  by (simp add: rejected_def validation_failed_def)

lemma violations_failed [simp]: "violations (Respond (validation_failed vs)) = vs"
  by (simp add: violations_def validation_failed_def)

lemma key_violation_reported:
  assumes "(k, child) \<in> set (keys sch)"
    and "d \<in> set (snd (validate_any gate_prefs cn [k] child (map_of (get_property pr req) k)))"
  shows "rejected (validate cn sch pr req)
         \<and> to_violation d \<in> set (violations (validate cn sch pr req))"
proof -
  from key_errors_member [OF assms] have mem: "d \<in> set (key_errors cn sch (get_property pr req))" .
  then have "key_errors cn sch (get_property pr req) \<noteq> []" by auto
  with mem show ?thesis by (simp add: validate_cases)
qed

lemma normalised_lookup:
  assumes d: "distinct (map fst (keys sch))" and k: "(k, child) \<in> set (keys sch)"
    and ok: "snd (validate_any gate_prefs cn [k] child (map_of input k)) = []"
  shows "map_of (normalised cn sch input) k
           = fst (validate_any gate_prefs cn [k] child (map_of input k))"
proof -
  define rs where "rs = key_results gate_prefs cn sch input"
  define res where "res = fst (validate_any gate_prefs cn [k] child (map_of input k))"
  define es where "es = snd (validate_any gate_prefs cn [k] child (map_of input k))"
  have dist: "distinct (map fst rs)"
    using d by (simp add: rs_def fst_key_results)
  have mem: "(k, map_of input k, res, es) \<in> set rs"
    unfolding rs_def res_def es_def by (rule key_results_member [OF k])
  from k have "k \<in> set (map fst (keys sch))" by force
  then have "map_of (normalised cn sch input) k
               = map_of (foldl store_result (AList.clearjunk input) rs) k"
    by (simp add: normalised_def rs_def)
  also have "\<dots> = (case res of Some x \<Rightarrow> Some x
                    | None \<Rightarrow> if es = [] \<and> map_of input k \<noteq> None then None
                              else map_of (AList.clearjunk input) k)"
    by (rule map_of_foldl_store [OF dist mem])
  also have "\<dots> = res"
  proof (cases res)
    case None
    moreover have "es = []" using ok by (simp add: es_def)
    ultimately show ?thesis
      by (cases "map_of input k") (simp_all add: map_of_clearjunk)
  next
    case (Some x)
    then show ?thesis by simp
  qed
  finally show ?thesis by (simp add: res_def)
qed

lemma normalised_unknown:
  "k \<notin> fst ` set (keys sch) \<Longrightarrow> map_of (normalised cn sch input) k = None"
  by (simp add: normalised_def)

section \<open>The query schema\<close>

lemmas builder_defs = chain_def add_rule_def required_def optional_def allow_def valid_def
  default_to_def with_messages_def Joi_string_def Joi_number_def

lemmas any_defs = validate_any_def coerce_value_def base_validate_def create_error_def
  gate_prefs_simps precision_limit_def

lemma query_keys_distinct: "distinct (map fst (keys querySchema))"
  by (simp add: querySchema_def)

lemma query_rules_value:
  "fst (run_object_rules (object_rules querySchema) v) = v"
  by (simp add: querySchema_def price_range_rule_def)

lemma query_Next:
  assumes "validate cn querySchema Query req = Next req'"
  shows "key_errors cn querySchema (query req) = []
         \<and> req' = req\<lparr>query := normalised cn querySchema (query req)\<rparr>"
proof -
  have ke: "key_errors cn querySchema (query req) = []"
    using assms by (auto simp: validate_cases get_property_def split: if_splits)
  obtain v es where r: "run_object_rules (object_rules querySchema)
      (normalised cn querySchema (query req)) = (v, es)"
    by (cases "run_object_rules (object_rules querySchema) (normalised cn querySchema (query req))")
  from query_rules_value [of "normalised cn querySchema (query req)"] r
  have v: "v = normalised cn querySchema (query req)" by simp
  from assms ke r have "req' = set_property Query v req"
    by (auto simp: validate_cases get_property_def split: if_splits)
  with ke v show ?thesis by (simp add: set_property_def)
qed

lemma page_absent:
  "validate_any gate_prefs cn [''page'']
     (chain Joi_number [add_rule Integer, add_rule (Lmin 1), default_to (JNum 1)]) None
   = (Some (JNum 1), [])"
  by (simp add: builder_defs any_defs)

lemma limit_absent:
  "validate_any gate_prefs cn [''limit'']
     (chain Joi_number [add_rule Integer, add_rule (Lmin 1), add_rule (Lmax 100),
        default_to (JNum 10)]) None
   = (Some (JNum 10), [])"
  by (simp add: builder_defs any_defs)

lemma sort_absent:
  "validate_any gate_prefs cn [''sort'']
     (chain Joi_string [valid sort_whitelist, default_to (JStr ''-createdAt'')]) None
   = (Some (JStr ''-createdAt''), [])"
  by (simp add: builder_defs any_defs)

lemma limit_number_too_large:
  assumes "100 < n"
  shows "snd (validate_any gate_prefs cn [''limit'']
     (chain Joi_number [add_rule Integer, add_rule (Lmin 1), add_rule (Lmax 100),
        default_to (JNum 10)]) (Some (JNum n))) \<noteq> []"
  using assms by (simp add: builder_defs any_defs)

lemma limit_string_too_large:
  assumes "100 < n" and "cn s = Parsed n"
  shows "snd (validate_any gate_prefs cn [''limit'']
     (chain Joi_number [add_rule Integer, add_rule (Lmin 1), add_rule (Lmax 100),
        default_to (JNum 10)]) (Some (JStr s))) \<noteq> []"
  using assms by (simp add: builder_defs any_defs)

lemma sort_outside:
  assumes "v \<notin> set sort_whitelist"
  shows "snd (validate_any gate_prefs cn [''sort'']
     (chain Joi_string [valid sort_whitelist, default_to (JStr ''-createdAt'')]) (Some v)) \<noteq> []"
proof -
  have "coerce_value gate_prefs cn (chain Joi_string [valid sort_whitelist, default_to (JStr ''-createdAt'')]) v = Inr v"
    by (cases v) (simp_all add: builder_defs any_defs)
  with assms show ?thesis
    by (auto simp: validate_any_def builder_defs Let_def split: prod.splits option.splits)
qed

lemma nonempty_rejected:
  assumes "(k, child) \<in> set (keys sch)"
    and "snd (validate_any gate_prefs cn [k] child (map_of (get_property pr req) k)) \<noteq> []"
  shows "rejected (validate cn sch pr req)"
proof -
  from assms(2) obtain d where
    "d \<in> set (snd (validate_any gate_prefs cn [k] child (map_of (get_property pr req) k)))"
    by (cases "snd (validate_any gate_prefs cn [k] child (map_of (get_property pr req) k))") auto
  from key_violation_reported [OF assms(1) this] show ?thesis by simp
qed

text \<open>
  C6. When the gate lets a query through, a page that was absent is 1, a limit that was
  absent is 10 and a sort that was absent is \<open>-createdAt\<close>. A limit above 100, given as
  a number or as a string that converts to one, and a sort that is not one of the twelve
  values of the whitelist, are rejected with HTTP 400 and the kind \<open>VALIDATION_ERROR\<close>.
\<close>

theorem query_defaults_and_bounds:
  "(validate cn querySchema Query req = Next req' \<longrightarrow>
      (map_of (query req) ''page'' = None \<longrightarrow> map_of (query req') ''page'' = Some (JNum 1))
    \<and> (map_of (query req) ''limit'' = None \<longrightarrow> map_of (query req') ''limit'' = Some (JNum 10))
    \<and> (map_of (query req) ''sort'' = None \<longrightarrow>
         map_of (query req') ''sort'' = Some (JStr ''-createdAt'')))
   \<and> (\<forall>n. 100 < n \<longrightarrow>
         (map_of (query req) ''limit'' = Some (JNum n)
          \<or> (\<exists>s. map_of (query req) ''limit'' = Some (JStr s) \<and> cn s = Parsed n)) \<longrightarrow>
         rejected (validate cn querySchema Query req))
   \<and> (\<forall>v. map_of (query req) ''sort'' = Some v \<longrightarrow> v \<notin> set sort_whitelist \<longrightarrow>
         rejected (validate cn querySchema Query req))"
proof (intro conjI impI allI)
  assume nx: "validate cn querySchema Query req = Next req'"
  note n = query_Next [OF nx]
  have q': "query req' = normalised cn querySchema (query req)"
    using n by simp
  {
    assume a: "map_of (query req) ''page'' = None"
    have "map_of (normalised cn querySchema (query req)) ''page'' = Some (JNum 1)"
      by (subst normalised_lookup [OF query_keys_distinct, where child =
            "chain Joi_number [add_rule Integer, add_rule (Lmin 1), default_to (JNum 1)]"])
         (simp_all add: a page_absent, simp add: querySchema_def)
    then show "map_of (query req') ''page'' = Some (JNum 1)" by (simp add: q')
  }
  {
    assume a: "map_of (query req) ''limit'' = None"
    have "map_of (normalised cn querySchema (query req)) ''limit'' = Some (JNum 10)"
      by (subst normalised_lookup [OF query_keys_distinct, where child =
            "chain Joi_number [add_rule Integer, add_rule (Lmin 1), add_rule (Lmax 100),
               default_to (JNum 10)]"])
         (simp_all add: a limit_absent, simp add: querySchema_def)
    then show "map_of (query req') ''limit'' = Some (JNum 10)" by (simp add: q')
  }
  {
    assume a: "map_of (query req) ''sort'' = None"
    have "map_of (normalised cn querySchema (query req)) ''sort'' = Some (JStr ''-createdAt'')"
      by (subst normalised_lookup [OF query_keys_distinct, where child =
            "chain Joi_string [valid sort_whitelist, default_to (JStr ''-createdAt'')]"])
         (simp_all add: a sort_absent, simp add: querySchema_def)
    then show "map_of (query req') ''sort'' = Some (JStr ''-createdAt'')" by (simp add: q')
  }
next
  fix n :: real
  assume big: "100 < n"
    and lim: "map_of (query req) ''limit'' = Some (JNum n)
          \<or> (\<exists>s. map_of (query req) ''limit'' = Some (JStr s) \<and> cn s = Parsed n)"
  have mem: "(''limit'', chain Joi_number [add_rule Integer, add_rule (Lmin 1),
               add_rule (Lmax 100), default_to (JNum 10)]) \<in> set (keys querySchema)"
    by (simp add: querySchema_def)
  from lim show "rejected (validate cn querySchema Query req)"
  proof
    assume "map_of (query req) ''limit'' = Some (JNum n)"
    then show ?thesis
      using nonempty_rejected [OF mem, of cn Query req] limit_number_too_large [OF big, of cn]
      by (simp add: get_property_def)
  next
    assume "\<exists>s. map_of (query req) ''limit'' = Some (JStr s) \<and> cn s = Parsed n"
    then obtain s where "map_of (query req) ''limit'' = Some (JStr s)" "cn s = Parsed n"
      by blast
    then show ?thesis
      using nonempty_rejected [OF mem, of cn Query req] limit_string_too_large [OF big, of cn s]
      by (simp add: get_property_def)
  qed
next
  fix v
  assume s: "map_of (query req) ''sort'' = Some v" and out: "v \<notin> set sort_whitelist"
  have mem: "(''sort'', chain Joi_string [valid sort_whitelist, default_to (JStr ''-createdAt'')])
               \<in> set (keys querySchema)"
    by (simp add: querySchema_def)
  show "rejected (validate cn querySchema Query req)"
    using nonempty_rejected [OF mem, of cn Query req] sort_outside [OF out, of cn] s
    by (simp add: get_property_def)
qed

text \<open>
  C10. A query whose \<open>search\<close>, once trimmed, is longer than 100 characters is rejected
  with HTTP 400 and the kind \<open>VALIDATION_ERROR\<close>, whatever its other parameters; the
  violation of \<open>search\<close> is among those listed.
\<close>

theorem long_search_rejected:
  assumes "map_of (query req) ''search'' = Some (JStr s)" and "100 < length (js_trim s)"
  shows "rejected (validate cn querySchema Query req)
         \<and> \<lparr>field = ''search'', v_message = JoiDefault ''string.max'',
             v_value = Some (JStr (js_trim s))\<rparr>
             \<in> set (violations (validate cn querySchema Query req))"
proof -
  let ?child = "chain Joi_string [add_rule Trim, add_rule (Lmax 100)]"
  let ?d = "create_error [] [''search''] ''string.max'' (Some (JStr (js_trim s)))"
  have mem: "(''search'', ?child) \<in> set (keys querySchema)"
    by (simp add: querySchema_def)
  from assms(2) have ne: "js_trim s \<noteq> []" by auto
  have "validate_any gate_prefs cn [''search''] ?child (Some (JStr s))
          = (Some (JStr (js_trim s)), [?d])"
    using assms(2) ne by (simp add: builder_defs any_defs)
  then have "?d \<in> set (snd (validate_any gate_prefs cn [''search''] ?child
                 (map_of (get_property Query req) ''search'')))"
    using assms(1) by (simp add: get_property_def)
  from key_violation_reported [OF mem this]
  show ?thesis by (simp add: to_violation_def create_error_def)
qed

lemma update_keys_distinct: "distinct (map fst (keys updateProductSchema))"
  by (simp add: updateProductSchema_def)

lemma update_keys_fields: "fst ` set (keys updateProductSchema) = set product_fields"
  by (simp add: updateProductSchema_def product_fields_def)

lemma update_absent:
  assumes "(k, child) \<in> set (keys updateProductSchema)"
  shows "validate_any gate_prefs cn [k] child None = (None, [])"
  using assms by (auto simp: updateProductSchema_def builder_defs any_defs)

lemma round_positive:
  assumes "5 / 1000 \<le> (r::real)"
  shows "0 < js_round (r * 100) / 100"
proof -
  from assms have "1 \<le> r * 100 + 1 / 2" by simp
  then have "1 \<le> \<lfloor>r * 100 + 1 / 2\<rfloor>" by (simp add: le_floor_iff)
  then show ?thesis by (simp add: js_round_def)
qed

lemma update_present_ok:
  assumes "(k, child) \<in> set (keys updateProductSchema)" and "update_field_ok k v"
  shows "snd (validate_any gate_prefs cn [k] child (Some v)) = []"
proof (cases v)
  case (JStr s)
  have "js_trim s \<noteq> [] \<Longrightarrow> Suc 0 \<le> length (js_trim s)"
    by (cases "js_trim s") simp_all
  with JStr assms show ?thesis
    by (auto simp: updateProductSchema_def update_field_ok_def builder_defs any_defs Let_def)
next
  case (JNum r)
  with assms round_positive [of r] show ?thesis
    by (auto simp: updateProductSchema_def update_field_ok_def builder_defs any_defs Let_def)
qed (use assms in \<open>simp_all add: update_field_ok_def\<close>)

lemma validate_any_Some: "fst (validate_any p cn path sch (Some raw)) \<noteq> None"
  by (simp add: validate_any_def Let_def split: sum.splits prod.splits option.splits)

section \<open>The update and create schemas\<close>

lemma update_rules: "object_rules updateProductSchema = [ObjectMin 1]"
  by (simp add: updateProductSchema_def)

lemma update_no_key_errors:
  assumes "\<forall>k \<in> set product_fields. \<forall>v. map_of input k = Some v \<longrightarrow> update_field_ok k v"
  shows "key_errors cn updateProductSchema input = []"
proof -
  have "snd (validate_any gate_prefs cn [k] child (map_of input k)) = []"
    if mem: "(k, child) \<in> set (keys updateProductSchema)" for k child
  proof (cases "map_of input k")
    case None
    then show ?thesis by (simp add: update_absent [OF mem])
  next
    case (Some v)
    from mem have "k \<in> set product_fields"
      using update_keys_fields by force
    with assms Some have "update_field_ok k v" by blast
    then show ?thesis by (simp add: Some update_present_ok [OF mem])
  qed
  then show ?thesis by (auto simp: key_errors_def)
qed

lemma update_normalised_empty:
  assumes "\<forall>k \<in> set product_fields. map_of input k = None"
  shows "normalised cn updateProductSchema input = []"
proof -
  have "map_of (normalised cn updateProductSchema input) k = None" for k
  proof (cases "k \<in> fst ` set (keys updateProductSchema)")
    case True
    then obtain child where mem: "(k, child) \<in> set (keys updateProductSchema)" by force
    from True assms have absent: "map_of input k = None"
      by (simp add: update_keys_fields)
    show ?thesis
      using normalised_lookup [OF update_keys_distinct mem, of cn input]
      by (simp add: absent update_absent [OF mem])
  next
    case False
    then show ?thesis by (rule normalised_unknown)
  qed
  then have "map_of (normalised cn updateProductSchema input) = Map.empty" by (rule ext)
  then show ?thesis by (simp only: map_of_eq_empty_iff)
qed

text \<open>
  C8. An update whose body has none of the five product fields (the empty body, or a
  body of unknown fields only, which are stripped) is rejected with HTTP 400 and the kind
  \<open>VALIDATION_ERROR\<close>, its one violation being that of the rule \<open>min(1)\<close>; the handler,
  and so the store, is not reached. A body with at least one product field, all of whose
  product fields are valid, passes, and the handler receives a body that is not empty.
\<close>

theorem update_needs_a_field:
  "((\<forall>k \<in> set product_fields. map_of (body req) k = None) \<longrightarrow>
      rejected (validate cn updateProductSchema Body req)
      \<and> violations (validate cn updateProductSchema Body req)
          = [\<lparr>field = [], v_message = JoiDefault ''object.min'', v_value = Some (JObj [])\<rparr>])
   \<and> ((\<exists>k \<in> set product_fields. map_of (body req) k \<noteq> None)
       \<and> (\<forall>k \<in> set product_fields. \<forall>v. map_of (body req) k = Some v \<longrightarrow> update_field_ok k v) \<longrightarrow>
      validate cn updateProductSchema Body req
        = Next (req\<lparr>body := normalised cn updateProductSchema (body req)\<rparr>)
      \<and> normalised cn updateProductSchema (body req) \<noteq> [])"
proof (intro conjI impI)
  assume none: "\<forall>k \<in> set product_fields. map_of (body req) k = None"
  then have ok: "\<forall>k \<in> set product_fields. \<forall>v. map_of (body req) k = Some v \<longrightarrow> update_field_ok k v"
    by simp
  have out: "validate cn updateProductSchema Body req
          = Respond (validation_failed
              [\<lparr>field = [], v_message = JoiDefault ''object.min'', v_value = Some (JObj [])\<rparr>])"
    by (simp add: validate_cases get_property_def update_no_key_errors [OF ok]
        update_normalised_empty [OF none] update_rules to_violation_def create_error_def)
  show "rejected (validate cn updateProductSchema Body req)"
    by (simp add: out)
  show "violations (validate cn updateProductSchema Body req)
          = [\<lparr>field = [], v_message = JoiDefault ''object.min'', v_value = Some (JObj [])\<rparr>]"
    by (simp add: out)
next
  assume a: "(\<exists>k \<in> set product_fields. map_of (body req) k \<noteq> None)
       \<and> (\<forall>k \<in> set product_fields. \<forall>v. map_of (body req) k = Some v \<longrightarrow> update_field_ok k v)"
  then obtain k v where k: "k \<in> set product_fields" and v: "map_of (body req) k = Some v"
    by auto
  from a have ok: "\<forall>k \<in> set product_fields. \<forall>v. map_of (body req) k = Some v \<longrightarrow> update_field_ok k v"
    by simp
  note ke = update_no_key_errors [OF ok, of cn]
  from k obtain child where mem: "(k, child) \<in> set (keys updateProductSchema)"
    using update_keys_fields by force
  have "map_of (normalised cn updateProductSchema (body req)) k
          = fst (validate_any gate_prefs cn [k] child (map_of (body req) k))"
    by (rule normalised_lookup [OF update_keys_distinct mem key_errors_Nil [OF ke mem]])
  then have "map_of (normalised cn updateProductSchema (body req)) k \<noteq> None"
    by (simp add: v validate_any_Some)
  then show ne: "normalised cn updateProductSchema (body req) \<noteq> []"
    by auto
  then have "Suc 0 \<le> length (normalised cn updateProductSchema (body req))"
    by (cases "normalised cn updateProductSchema (body req)") simp_all
  then show "validate cn updateProductSchema Body req
        = Next (req\<lparr>body := normalised cn updateProductSchema (body req)\<rparr>)"
    by (simp add: validate_cases get_property_def ke set_property_def update_rules)
qed

lemma Next_normalised:
  assumes same: "\<And>v. fst (run_object_rules (object_rules sch) v) = v"
    and nx: "validate cn sch pr req = Next req'"
  shows "key_errors cn sch (get_property pr req) = []
         \<and> req' = set_property pr (normalised cn sch (get_property pr req)) req"
proof -
  let ?n = "normalised cn sch (get_property pr req)"
  have ke: "key_errors cn sch (get_property pr req) = []"
    using nx by (auto simp: validate_cases split: if_splits)
  obtain v es where r: "run_object_rules (object_rules sch) ?n = (v, es)"
    by (cases "run_object_rules (object_rules sch) ?n")
  from same [of ?n] r have v: "v = ?n" by simp
  from nx ke r have "req' = set_property pr v req"
    by (auto simp: validate_cases split: if_splits)
  with ke v show ?thesis by simp
qed

lemma create_rules_value: "fst (run_object_rules (object_rules createProductSchema) v) = v"
  by (simp add: createProductSchema_def)

lemma update_rules_value: "fst (run_object_rules (object_rules updateProductSchema) v) = v"
  by (simp add: updateProductSchema_def split: prod.splits)

lemma get_set_property [simp]: "get_property pr (set_property pr v req) = v"
  by (cases pr) (simp_all add: get_property_def set_property_def)

lemma keys_normalised: "fst ` set (normalised cn sch input) \<subseteq> fst ` set (keys sch)"
  by (auto simp: normalised_def)

text \<open>
  C7, as the code has it. When a key of the schema fails, the gate answers HTTP 400 with
  the kind \<open>VALIDATION_ERROR\<close> and lists every error of every key, each as field path,
  message and offending value, and the handler is not called. The rules of the object
  itself are checked only when no key has failed; their errors are then answered the
  same way. Otherwise the handler is called on the request whose target part is the
  normalised value, and for the three product schemas that value has no key outside the
  schema.
\<close>

theorem gate_reports_collected_violations:
  "(key_errors cn sch (get_property pr req) \<noteq> [] \<longrightarrow>
      validate cn sch pr req
        = Respond (validation_failed
            (map to_violation (key_errors cn sch (get_property pr req)))))
   \<and> (key_errors cn sch (get_property pr req) = [] \<longrightarrow>
      validate cn sch pr req
        = (case run_object_rules (object_rules sch) (normalised cn sch (get_property pr req)) of
             (value, es) \<Rightarrow>
               if es \<noteq> [] then Respond (validation_failed (map to_violation es))
               else Next (set_property pr value req)))
   \<and> (\<forall>(k, child) \<in> set (keys sch).
        \<forall>d \<in> set (snd (validate_any gate_prefs cn [k] child (map_of (get_property pr req) k))).
          rejected (validate cn sch pr req)
          \<and> to_violation d \<in> set (violations (validate cn sch pr req)))
   \<and> (sch \<in> {createProductSchema, updateProductSchema, querySchema} \<longrightarrow>
      validate cn sch pr req = Next req' \<longrightarrow>
        req' = set_property pr (normalised cn sch (get_property pr req)) req
        \<and> fst ` set (get_property pr req') \<subseteq> fst ` set (keys sch))"
proof (intro conjI impI ballI)
  assume "key_errors cn sch (get_property pr req) \<noteq> []"
  then show "validate cn sch pr req
        = Respond (validation_failed
            (map to_violation (key_errors cn sch (get_property pr req))))"
    by (simp add: validate_cases)
next
  assume "key_errors cn sch (get_property pr req) = []"
  then show "validate cn sch pr req
        = (case run_object_rules (object_rules sch) (normalised cn sch (get_property pr req)) of
             (value, es) \<Rightarrow>
               if es \<noteq> [] then Respond (validation_failed (map to_violation es))
               else Next (set_property pr value req))"
    by (simp add: validate_cases)
next
  fix kc
  assume kc: "kc \<in> set (keys sch)"
  obtain k child where p: "kc = (k, child)" by (cases kc)
  show "case kc of (k, child) \<Rightarrow>
        \<forall>d \<in> set (snd (validate_any gate_prefs cn [k] child (map_of (get_property pr req) k))).
          rejected (validate cn sch pr req)
          \<and> to_violation d \<in> set (violations (validate cn sch pr req))"
    using key_violation_reported [of k child sch _ cn pr req] kc by (simp add: p)
next
  assume sch: "sch \<in> {createProductSchema, updateProductSchema, querySchema}"
    and nx: "validate cn sch pr req = Next req'"
  from sch have same: "\<And>v. fst (run_object_rules (object_rules sch) v) = v"
    by (auto simp: create_rules_value update_rules_value query_rules_value)
  from Next_normalised [OF same nx]
  show r: "req' = set_property pr (normalised cn sch (get_property pr req)) req"
    by simp
  show "fst ` set (get_property pr req') \<subseteq> fst ` set (keys sch)"
    by (simp only: r get_set_property keys_normalised)
qed

lemma take_drop_slice: "take l (drop a xs) = slice xs a (a + l)"
proof (rule nth_equalityI)
  show "length (take l (drop a xs)) = length (slice xs a (a + l))"
    by (auto simp: slice_def)
next
  fix i
  assume "i < length (take l (drop a xs))"
  then have "i < l" and "a + i < length xs" by auto
  then show "take l (drop a xs) ! i = slice xs a (a + l) ! i"
    by (simp add: slice_def)
qed

text \<open>
  C5. For a page and a limit of at least 1, the page has at most \<open>limit\<close> items, it is
  the slice from \<open>(page - 1) * limit\<close> to \<open>page * limit\<close> of the filtered and sorted
  products, \<open>total\<close> counts all of them, and \<open>totalPages\<close> is the ceiling of
  \<open>total / limit\<close>: the least number of pages of that size that hold them all.
\<close>

theorem page_is_a_slice:
  assumes "1 \<le> page" and "1 \<le> limit"
    and "list_products matches order store page limit = (items, meta)"
  shows "length items \<le> limit
         \<and> items = slice (order (filter matches store)) ((page - 1) * limit) (page * limit)
         \<and> pg_total meta = length (order (filter matches store))
         \<and> pg_page meta = page \<and> pg_limit meta = limit
         \<and> int (pg_totalPages meta) = \<lceil>real (pg_total meta) / real limit\<rceil>
         \<and> pg_total meta \<le> pg_totalPages meta * limit
         \<and> pg_totalPages meta * limit < pg_total meta + limit"
proof -
  let ?rs = "order (filter matches store)"
  let ?t = "length ?rs"
  let ?c = "\<lceil>real ?t / real limit\<rceil>"
  from assms(3) have items: "items = take limit (drop ((page - 1) * limit) ?rs)"
    and meta: "meta = \<lparr>pg_page = page, pg_limit = limit, pg_total = ?t,
                       pg_totalPages = nat ?c\<rparr>"
    by (simp_all add: list_products_def Let_def)
  from assms(1) have pl: "(page - 1) * limit + limit = page * limit"
    by (cases page) simp_all
  have lpos: "0 < real limit" using assms(2) by simp
  have "0 \<le> real ?t / real limit" by simp
  then have "- 1 < real ?t / real limit" by linarith
  then have c0: "0 \<le> ?c" by (simp only: zero_le_ceiling)
  have up: "real ?t / real limit \<le> of_int ?c" by (rule le_of_int_ceiling)
  have lo: "of_int ?c < real ?t / real limit + 1" by linarith
  from up have "real ?t \<le> of_int ?c * real limit"
    by (simp only: pos_divide_le_eq [OF lpos])
  then have "real ?t \<le> real (nat ?c * limit)" using c0 by simp
  then have b1: "?t \<le> nat ?c * limit" by (simp only: of_nat_le_iff)
  from lo lpos have "of_int ?c * real limit < (real ?t / real limit + 1) * real limit"
    by (rule mult_strict_right_mono)
  also from lpos have "(real ?t / real limit + 1) * real limit = real ?t + real limit"
    by (simp add: distrib_right)
  finally have "of_int ?c * real limit < real ?t + real limit" .
  then have "real (nat ?c * limit) < real (?t + limit)" using c0 by simp
  then have b2: "nat ?c * limit < ?t + limit" by (simp only: of_nat_less_iff)
  have sl: "items = slice ?rs ((page - 1) * limit) (page * limit)"
    using take_drop_slice [of limit "(page - 1) * limit" ?rs] by (simp only: items pl)
  have len: "length items \<le> limit"
    by (simp add: items)
  from c0 have tp: "int (pg_totalPages meta) = ?c"
    by (simp add: meta)
  show ?thesis
    using b1 b2 sl len tp by (simp add: meta)
qed

section \<open>The gate at concrete requests\<close>

text \<open>
  C1. The code at \<open>minPrice = 5\<close>, \<open>maxPrice = 0\<close>: both are present and the maximum
  is below the minimum, yet the custom rule tests the two values for truthiness, \<open>0\<close> is
  falsy, and the gate calls the handler.
\<close>

theorem zero_max_price_passes:
  "validate digits_only querySchema Query zero_max_query
     = Next \<lparr>body = [],
             query = [(''minPrice'', JNum 5), (''maxPrice'', JNum 0), (''page'', JNum 1),
                      (''limit'', JNum 10), (''sort'', JStr ''-createdAt'')]\<rparr>"
  unfolding zero_max_query_def by code_simp

text \<open>
  C3. The code at a create payload with the price \<open>10.999\<close>: with \<open>convert\<close> on, Joi
  rounds the price under \<open>precision(2)\<close> and skips the rule, so the gate calls the handler
  with the price \<open>11\<close>.
\<close>

theorem three_decimals_pass_rounded:
  "validate digits_only createProductSchema Body \<lparr>body = three_decimals_body, query = []\<rparr>
     = Next \<lparr>body = [(''name'', JStr ''Widget''), (''price'', JNum 11),
                      (''category'', JStr ''Tools''), (''stock'', JNum 1)],
             query = []\<rparr>"
  unfolding three_decimals_body_def by code_simp

text \<open>
  The claim C7 as stated fails. The first query breaks the rule on the price range and
  is answered with that violation. The second breaks the same rule and the bound on
  \<open>limit\<close>, two rules, and the answer lists the violation of \<open>limit\<close> alone.
\<close>

theorem range_rule_skipped_after_key_error:
  "violations (validate digits_only querySchema Query
      \<lparr>body = [], query = [(''minPrice'', JStr ''5''), (''maxPrice'', JStr ''3'')]\<rparr>)
     = [\<lparr>field = [], v_message = JoiDefault ''any.invalid'',
         v_value = Some (JObj [(''minPrice'', JNum 5), (''maxPrice'', JNum 3),
                     (''page'', JNum 1), (''limit'', JNum 10), (''sort'', JStr ''-createdAt'')])\<rparr>]
   \<and> violations (validate digits_only querySchema Query
      \<lparr>body = [], query = [(''limit'', JStr ''1000''), (''minPrice'', JStr ''5''),
                           (''maxPrice'', JStr ''3'')]\<rparr>)
     = [\<lparr>field = ''limit'', v_message = JoiDefault ''number.max'',
         v_value = Some (JNum 1000)\<rparr>]"
  by code_simp

text \<open>
  The theorem of C6 at concrete requests.
\<close>

theorem query_defaults_and_bounds_witness:
  "validate digits_only querySchema Query \<lparr>body = [], query = []\<rparr>
     = Next \<lparr>body = [], query = [(''page'', JNum 1), (''limit'', JNum 10),
                                   (''sort'', JStr ''-createdAt'')]\<rparr>
   \<and> rejected (validate digits_only querySchema Query
         \<lparr>body = [], query = [(''limit'', JNum 101)]\<rparr>)
   \<and> rejected (validate digits_only querySchema Query
         \<lparr>body = [], query = [(''limit'', JStr ''101'')]\<rparr>)
   \<and> rejected (validate digits_only querySchema Query
         \<lparr>body = [], query = [(''sort'', JStr ''newest'')]\<rparr>)"
proof -
  let ?q = "[(''page'', JNum 1), (''limit'', JNum 10), (''sort'', JStr ''-createdAt'')]"
  have ev: "validate digits_only querySchema Query \<lparr>body = [], query = []\<rparr>
              = Next \<lparr>body = [], query = ?q\<rparr>"
    by code_simp
  have p: "digits_only ''101'' = Parsed 101"
    by code_simp
  have w: "JStr ''newest'' \<notin> set sort_whitelist"
    by (simp add: sort_whitelist_def)
  from query_defaults_and_bounds [of digits_only "\<lparr>body = [], query = []\<rparr>"
      "\<lparr>body = [], query = ?q\<rparr>"] ev
  have d: "map_of ?q ''page'' = Some (JNum 1)" by simp
  from query_defaults_and_bounds [of digits_only
      "\<lparr>body = [], query = [(''limit'', JNum 101)]\<rparr>" "\<lparr>body = [], query = []\<rparr>"]
  have r1: "rejected (validate digits_only querySchema Query
         \<lparr>body = [], query = [(''limit'', JNum 101)]\<rparr>)"
    by simp
  from query_defaults_and_bounds [of digits_only
      "\<lparr>body = [], query = [(''limit'', JStr ''101'')]\<rparr>" "\<lparr>body = [], query = []\<rparr>"] p
  have r2: "rejected (validate digits_only querySchema Query
         \<lparr>body = [], query = [(''limit'', JStr ''101'')]\<rparr>)"
    by simp
  from query_defaults_and_bounds [of digits_only
      "\<lparr>body = [], query = [(''sort'', JStr ''newest'')]\<rparr>" "\<lparr>body = [], query = []\<rparr>"] w
  have r3: "rejected (validate digits_only querySchema Query
         \<lparr>body = [], query = [(''sort'', JStr ''newest'')]\<rparr>)"
    by simp
  from ev d r1 r2 r3 show ?thesis by simp
qed

text \<open>
  The theorem of C8 at concrete requests.
\<close>

theorem update_needs_a_field_witness:
  "rejected (validate digits_only updateProductSchema Body \<lparr>body = [], query = []\<rparr>)
   \<and> validate digits_only updateProductSchema Body
        \<lparr>body = [(''name'', JStr ''Updated Product''), (''price'', JNum 29.99)], query = []\<rparr>
      = Next \<lparr>body = [(''name'', JStr ''Updated Product''), (''price'', JNum 29.99)],
              query = []\<rparr>"
proof -
  let ?b = "[(''name'', JStr ''Updated Product''), (''price'', JNum 29.99)]"
  have n: "normalised digits_only updateProductSchema ?b = ?b"
    by code_simp
  have ok1: "update_field_ok ''name'' (JStr ''Updated Product'')"
    by code_simp
  have ok2: "update_field_ok ''price'' (JNum 29.99)"
    by (simp add: update_field_ok_def MAX_SAFE_INTEGER_def)
  from update_needs_a_field [of "\<lparr>body = [], query = []\<rparr>" digits_only]
  have r: "rejected (validate digits_only updateProductSchema Body \<lparr>body = [], query = []\<rparr>)"
    by simp
  from update_needs_a_field [of "\<lparr>body = ?b, query = []\<rparr>" digits_only] ok1 ok2
  have "validate digits_only updateProductSchema Body \<lparr>body = ?b, query = []\<rparr>
          = Next (\<lparr>body = ?b, query = []\<rparr>\<lparr>body := normalised digits_only updateProductSchema ?b\<rparr>)"
    by (simp add: product_fields_def)
  with r n show ?thesis by simp
qed

text \<open>
  The theorem of C10 at concrete requests.
\<close>

theorem long_search_rejected_witness:
  "map_of (query \<lparr>body = [], query = [(''search'', JStr (replicate 101 (CHR ''a'')))]\<rparr>) ''search''
     = Some (JStr (replicate 101 (CHR ''a'')))
   \<and> 100 < length (js_trim (replicate 101 (CHR ''a'')))
   \<and> rejected (validate digits_only querySchema Query
        \<lparr>body = [], query = [(''search'', JStr (replicate 101 (CHR ''a'')))]\<rparr>)"
proof -
  let ?s = "replicate 101 (CHR ''a'')"
  have a: "map_of (query \<lparr>body = [], query = [(''search'', JStr ?s)]\<rparr>) ''search'' = Some (JStr ?s)"
    by simp
  have b: "100 < length (js_trim ?s)"
    by code_simp
  from long_search_rejected [OF a b, of digits_only] a b show ?thesis by blast
qed

text \<open>
  The theorem of C7 at concrete requests.
\<close>

theorem gate_reports_collected_violations_witness:
  "key_errors digits_only createProductSchema invalid_create_body \<noteq> []
   \<and> validate digits_only createProductSchema Body \<lparr>body = invalid_create_body, query = []\<rparr>
       = Respond (validation_failed
           [\<lparr>field = ''name'', v_message = Text ''Product name is required'',
              v_value = Some (JStr [])\<rparr>,
            \<lparr>field = ''price'', v_message = Text ''Price must be a positive number'',
              v_value = Some (JNum (- 10))\<rparr>,
            \<lparr>field = ''category'', v_message = Text ''Product category is required'',
              v_value = None\<rparr>,
            \<lparr>field = ''stock'', v_message = Text ''Stock cannot be negative'',
              v_value = Some (JNum (- 5))\<rparr>])
   \<and> validate digits_only createProductSchema Body
        \<lparr>body = [(''isAdmin'', JBool True), (''name'', JStr '' Pen ''), (''price'', JNum 2),
                  (''category'', JStr ''Office''), (''stock'', JNum 3)], query = []\<rparr>
      = Next \<lparr>body = [(''name'', JStr ''Pen''), (''price'', JNum 2),
                       (''category'', JStr ''Office''), (''stock'', JNum 3)], query = []\<rparr>
   \<and> fst ` set [(''name'', JStr ''Pen''), (''price'', JNum 2),
                 (''category'', JStr ''Office''), (''stock'', JNum (3::real))]
       \<subseteq> fst ` set (keys createProductSchema)
   \<and> key_errors digits_only updateProductSchema [(''isAdmin'', JBool True)] = []
   \<and> validate digits_only updateProductSchema Body
        \<lparr>body = [(''isAdmin'', JBool True)], query = []\<rparr>
      = Respond (validation_failed
          [\<lparr>field = [], v_message = JoiDefault ''object.min'', v_value = Some (JObj [])\<rparr>])"
proof -
  let ?only_unknown = "\<lparr>body = [(''isAdmin'', JBool True)], query = []\<rparr>"
  have ku: "key_errors digits_only updateProductSchema [(''isAdmin'', JBool True)] = []"
    by code_simp
  have ru: "(case run_object_rules (object_rules updateProductSchema)
               (normalised digits_only updateProductSchema [(''isAdmin'', JBool True)]) of
             (value, es) \<Rightarrow>
               if es \<noteq> [] then Respond (validation_failed (map to_violation es))
               else Next (set_property Body value ?only_unknown))
            = Respond (validation_failed
                [\<lparr>field = [], v_message = JoiDefault ''object.min'',
                   v_value = Some (JObj [])\<rparr>])"
    by code_simp
  from gate_reports_collected_violations
         [of digits_only updateProductSchema Body ?only_unknown ?only_unknown] ku
  have unk: "validate digits_only updateProductSchema Body ?only_unknown
      = Respond (validation_failed
          [\<lparr>field = [], v_message = JoiDefault ''object.min'', v_value = Some (JObj [])\<rparr>])"
    by (simp only: get_property_def property.case request.select_convs ru)
  let ?bad = "\<lparr>body = invalid_create_body, query = []\<rparr>"
  let ?good = "\<lparr>body = [(''isAdmin'', JBool True), (''name'', JStr '' Pen ''), (''price'', JNum 2),
                  (''category'', JStr ''Office''), (''stock'', JNum 3)], query = []\<rparr>"
  let ?out = "\<lparr>body = [(''name'', JStr ''Pen''), (''price'', JNum 2),
                       (''category'', JStr ''Office''), (''stock'', JNum 3)], query = []\<rparr>"
  have ke: "map to_violation (key_errors digits_only createProductSchema invalid_create_body)
     = [\<lparr>field = ''name'', v_message = Text ''Product name is required'',
              v_value = Some (JStr [])\<rparr>,
            \<lparr>field = ''price'', v_message = Text ''Price must be a positive number'',
              v_value = Some (JNum (- 10))\<rparr>,
            \<lparr>field = ''category'', v_message = Text ''Product category is required'',
              v_value = None\<rparr>,
            \<lparr>field = ''stock'', v_message = Text ''Stock cannot be negative'',
              v_value = Some (JNum (- 5))\<rparr>]"
    unfolding invalid_create_body_def by code_simp
  then have ne: "key_errors digits_only createProductSchema invalid_create_body \<noteq> []"
    by auto
  have ev: "validate digits_only createProductSchema Body ?good = Next ?out"
    by code_simp
  from gate_reports_collected_violations [of digits_only createProductSchema Body ?bad ?bad] ne
  have bad: "validate digits_only createProductSchema Body ?bad
        = Respond (validation_failed
            (map to_violation (key_errors digits_only createProductSchema invalid_create_body)))"
    by (simp add: get_property_def)
  from gate_reports_collected_violations [of digits_only createProductSchema Body ?good ?out] ev
  have sub: "fst ` set (get_property Body ?out) \<subseteq> fst ` set (keys createProductSchema)"
    by blast
  from ne bad ke ev sub ku unk show ?thesis
    by (simp add: get_property_def)
qed

text \<open>
  The theorem of C5 at the second page of three of seven products.
\<close>

theorem page_is_a_slice_witness:
  "(1::nat) \<le> 2 \<and> (1::nat) \<le> 3
   \<and> list_products (\<lambda>x. True) rev [7, 6, 5, 4, 3, 2, 1 :: nat] 2 3
       = ([4, 5, 6], \<lparr>pg_page = 2, pg_limit = 3, pg_total = 7, pg_totalPages = 3\<rparr>)
   \<and> [4, 5, 6] = slice (rev (filter (\<lambda>x. True) [7, 6, 5, 4, 3, 2, 1 :: nat])) ((2 - 1) * 3) (2 * 3)"
proof -
  have ev: "list_products (\<lambda>x. True) rev [7, 6, 5, 4, 3, 2, 1 :: nat] 2 3
       = ([4, 5, 6], \<lparr>pg_page = 2, pg_limit = 3, pg_total = 7, pg_totalPages = 3\<rparr>)"
    by code_simp
  have a: "(1::nat) \<le> 2" and b: "(1::nat) \<le> 3" by simp_all
  note s = page_is_a_slice [OF a b ev, THEN conjunct2, THEN conjunct1]
  show ?thesis by (intro conjI a b ev s)
qed

section \<open>The save hook in double arithmetic\<close>

lemma halvings_small: "a < 2 \<Longrightarrow> halvings k a = 0"
  by (cases k) simp_all

lemma halvings_eq:
  "2 ^ e \<le> a \<Longrightarrow> a < 2 ^ Suc e \<Longrightarrow> e \<le> k \<Longrightarrow> halvings k a = e"
proof (induction e arbitrary: k a)
  case 0
  then show ?case by (simp add: halvings_small)
next
  case (Suc e)
  from Suc.prems(3) obtain k' where k: "k = Suc k'" and le: "e \<le> k'"
    by (cases k) auto
  have "(1::real) \<le> 2 ^ e" by (rule one_le_power) simp
  moreover from Suc.prems(1) have "2 * 2 ^ e \<le> a" by simp
  ultimately have two: "2 \<le> a" by linarith
  from Suc.prems have "2 ^ e \<le> a / 2" and "a / 2 < 2 ^ Suc e" by simp_all
  from Suc.IH [OF this le] two show ?case by (simp add: k)
qed

lemma halvings_le: "1 \<le> a \<Longrightarrow> 2 ^ halvings k a \<le> a"
proof (induction k arbitrary: a)
  case 0
  then show ?case by simp
next
  case (Suc k)
  show ?case
  proof (cases "2 \<le> a")
    case True
    then have "1 \<le> a / 2" by simp
    from Suc.IH [OF this] True show ?thesis by simp
  next
    case False
    with Suc.prems show ?thesis by simp
  qed
qed

lemma halvings_less: "a < 2 ^ k \<Longrightarrow> 0 < k \<Longrightarrow> halvings k a < k"
proof (induction k arbitrary: a)
  case 0
  then show ?case by simp
next
  case (Suc k)
  show ?case
  proof (cases "2 \<le> a")
    case True
    with Suc.prems(1) have pos: "0 < k" by (cases k) simp_all
    from Suc.prems(1) have "a / 2 < 2 ^ k" by simp
    from Suc.IH [OF this pos] True show ?thesis by simp
  next
    case False
    then show ?thesis by simp
  qed
qed

lemma doublings_eq:
  "(1 / 2) ^ c \<le> a \<Longrightarrow> a < 2 * (1 / 2) ^ c \<Longrightarrow> c \<le> k \<Longrightarrow> doublings k a = c"
proof (induction c arbitrary: k a)
  case 0
  then show ?case by (cases k) simp_all
next
  case (Suc c)
  from Suc.prems(3) obtain k' where k: "k = Suc k'" and le: "c \<le> k'"
    by (cases k) auto
  have "(1 / 2 :: real) ^ c \<le> 1" by (simp add: power_le_one)
  with Suc.prems(2) have small: "a < 1" by simp
  from Suc.prems have "(1 / 2) ^ c \<le> 2 * a" and "2 * a < 2 * (1 / 2) ^ c" by simp_all
  from Suc.IH [OF this le] small show ?case by (simp add: k)
qed

lemma doublings_le: "(1 / 2) ^ k \<le> a \<Longrightarrow> (1 / 2) ^ doublings k a \<le> a"
proof (induction k arbitrary: a)
  case 0
  then show ?case by simp
next
  case (Suc k)
  show ?case
  proof (cases "a < 1")
    case True
    from Suc.prems have "(1 / 2) ^ k \<le> 2 * a" by simp
    from Suc.IH [OF this] True show ?thesis by simp
  next
    case False
    then show ?thesis by simp
  qed
qed

lemma powi_neg: "(2::real) powi (- int c) = (1 / 2) ^ c"
  by (simp add: power_int_def power_one_over)

lemma powi_nat: "(2::real) powi (int c) = 2 ^ c"
  by (simp add: power_int_def)

lemma exponent_le:
  assumes "(1 / 2) ^ 1022 \<le> \<bar>z\<bar>"
  shows "2 powi (exponent z) \<le> \<bar>z\<bar>"
proof (cases "1 \<le> \<bar>z\<bar>")
  case True
  then show ?thesis
    by (simp add: exponent_def powi_nat halvings_le del: halvings.simps)
next
  case False
  then show ?thesis
    using doublings_le [OF assms] by (simp add: exponent_def powi_neg del: doublings.simps)
qed

lemma exponent_nonpos: "\<bar>z\<bar> < 1 \<Longrightarrow> exponent z \<le> 0"
  by (simp add: exponent_def)

lemma exponent_eqI:
  assumes "2 powi e \<le> \<bar>z\<bar>" and "\<bar>z\<bar> < 2 powi (e + 1)" and "- 1022 \<le> e" and "e \<le> 1023"
  shows "exponent z = e"
proof (cases "0 \<le> e")
  case True
  then obtain c where e: "e = int c" by (metis nonneg_int_cases)
  from assms(1) have lo: "2 ^ c \<le> \<bar>z\<bar>" by (simp add: e powi_nat)
  from assms(2) have hi: "\<bar>z\<bar> < 2 ^ Suc c"
    using powi_nat [of "Suc c"] by (simp add: e add.commute)
  from assms(4) have "c \<le> 1024" by (simp add: e)
  from halvings_eq [OF lo hi this] have "halvings 1024 \<bar>z\<bar> = c" .
  moreover from lo have "1 \<le> \<bar>z\<bar>"
    using one_le_power [of "2::real" c] by linarith
  ultimately show ?thesis by (simp add: exponent_def e del: halvings.simps)
next
  case False
  then obtain c where e: "e = - int (Suc c)"
    by (metis int_cases of_nat_0_le_iff)
  from assms(1) have lo: "(1 / 2) ^ Suc c \<le> \<bar>z\<bar>"
    using powi_neg [of "Suc c"] by (simp add: e)
  have "e + 1 = - int c" by (simp add: e)
  with assms(2) have "\<bar>z\<bar> < (1 / 2) ^ c" by (simp add: powi_neg)
  then have hi: "\<bar>z\<bar> < 2 * (1 / 2) ^ Suc c" by simp
  from assms(3) have "Suc c \<le> 1022" by (simp add: e)
  from doublings_eq [OF lo hi this] have "doublings 1022 \<bar>z\<bar> = Suc c" .
  moreover have "(1 / 2 :: real) ^ c \<le> 1" by (simp add: power_le_one)
  with \<open>\<bar>z\<bar> < (1 / 2) ^ c\<close> have "\<not> 1 \<le> \<bar>z\<bar>" by simp
  ultimately show ?thesis by (simp add: exponent_def e del: doublings.simps)
qed

lemma not_overflows: "\<bar>r\<bar> < 2 ^ 1024 \<Longrightarrow> \<not> overflows r"
  using halvings_less [of "\<bar>r\<bar>" 1024] by (simp add: overflows_def del: halvings.simps)

lemma round_half_even_error: "\<bar>of_int (round_half_even m) - m\<bar> \<le> 1 / 2"
  unfolding round_half_even_def by (auto; linarith)

lemma nearest_error: "\<bar>nearest z - z\<bar> \<le> 2 powi (exponent z - 53)"
proof -
  define q :: real where "q = 2 powi (exponent z - 52)"
  have qpos: "0 < q" by (simp add: q_def)
  have "nearest z - z = (of_int (round_half_even (z / q)) - z / q) * q"
    using qpos by (simp add: nearest_def q_def left_diff_distrib)
  then have "\<bar>nearest z - z\<bar> = \<bar>of_int (round_half_even (z / q)) - z / q\<bar> * q"
    using qpos by (simp add: abs_mult)
  also have "\<dots> \<le> 1 / 2 * q"
    using round_half_even_error [of "z / q"] qpos by (simp only: mult_right_mono less_imp_le)
  also have "1 / 2 * q = 2 powi (exponent z - 53)"
    by (simp add: q_def power_int_diff)
  finally show ?thesis .
qed

lemma nearest_error_relative:
  assumes "(1 / 2) ^ 1022 \<le> \<bar>z\<bar>"
  shows "\<bar>nearest z - z\<bar> \<le> \<bar>z\<bar> / 2 ^ 53"
proof -
  have "(2::real) powi (exponent z - 53) = 2 powi (exponent z) / 2 ^ 53"
    by (simp add: power_int_diff)
  also have "\<dots> \<le> \<bar>z\<bar> / 2 ^ 53"
    using exponent_le [OF assms] by (simp add: divide_right_mono)
  finally show ?thesis using nearest_error [of z] by linarith
qed

lemma nearest_error_small:
  assumes "\<bar>z\<bar> < 1"
  shows "\<bar>nearest z - z\<bar> \<le> 1 / 2 ^ 53"
proof -
  from exponent_nonpos [OF assms] have "exponent z - 53 \<le> - 53" by simp
  then have "(2::real) powi (exponent z - 53) \<le> 2 powi (- 53)"
    by (rule power_int_increasing) simp
  also have "(2::real) powi (- 53) = 1 / 2 ^ 53"
    by (simp add: power_int_minus_divide)
  finally show ?thesis using nearest_error [of z] by linarith
qed

lemma to_double_eqI:
  assumes "2 powi e \<le> \<bar>z\<bar>" and "\<bar>z\<bar> < 2 powi (e + 1)" and "- 1022 \<le> e" and "e \<le> 1023"
    and m: "round_half_even (z / 2 powi (e - 52)) = m"
    and r: "r = of_int m * 2 powi (e - 52)" and small: "\<bar>r\<bar> < 2 ^ 60"
  shows "to_double z = Finite r"
proof -
  have ex: "exponent z = e"
    by (rule exponent_eqI) fact+
  have n: "nearest z = r"
    by (simp add: nearest_def ex m r)
  have "(2::real) ^ 60 \<le> 2 ^ 1024"
    by (rule power_increasing) simp_all
  with small have "\<bar>r\<bar> < 2 ^ 1024" by linarith
  then have "\<not> overflows r" by (rule not_overflows)
  then show ?thesis by (simp add: to_double_def n)
qed

lemma hook_eval:
  assumes "p \<noteq> 0" and "to_double (p * 100) = Finite w" and "js_round w = n"
    and "to_double (n / 100) = Finite y"
  shows "pre_save (priced (Finite p)) = priced (Finite y)"
  using assms by (simp add: pre_save_def priced_def)

lemmas eval_simps = round_half_even_def

lemma parse_1005: "to_double 1.005 = Finite (1131529406376837 / 1125899906842624)"
  by (rule to_double_eqI [where e = 0 and m = 4526117625507348]) (simp_all add: eval_simps)

lemma times_1005:
  "to_double (1131529406376837 / 1125899906842624 * 100) = Finite (7072058789855231 / 70368744177664)"
  by (rule to_double_eqI [where e = 6 and m = 7072058789855231]) (simp_all add: eval_simps)

lemma round_1005: "js_round (7072058789855231 / 70368744177664) = 100"
  by (simp add: js_round_def)

lemma to_double_1: "to_double (100 / 100) = Finite 1"
  by (rule to_double_eqI [where e = 0 and m = 4503599627370496]) (simp_all add: eval_simps)


lemma parse_large:
  "to_double 42476636344509.836 = Finite (5437009452097259 / 128)"
  by (rule to_double_eqI [where e = 45 and m = 5437009452097259]) (simp_all add: eval_simps)

lemma times_large:
  "to_double (5437009452097259 / 128 * 100) = Finite (8495327268901967 / 2)"
  by (rule to_double_eqI [where e = 51 and m = 8495327268901967]) (simp_all add: eval_simps)

lemma round_large: "js_round (8495327268901967 / 2) = 4247663634450984"
  by (simp add: js_round_def)

lemma divide_large:
  "to_double (4247663634450984 / 100) = Finite (1359252363024315 / 32)"
  by (rule to_double_eqI [where e = 45 and m = 5437009452097260]) (simp_all add: eval_simps)

lemma times_stored:
  "to_double (1359252363024315 / 32 * 100) = Finite (8495327268901969 / 2)"
  by (rule to_double_eqI [where e = 51 and m = 8495327268901969]) (simp_all add: eval_simps)

lemma round_stored: "js_round (8495327268901969 / 2) = 4247663634450985"
  by (simp add: js_round_def)

lemma divide_stored:
  "to_double (4247663634450985 / 100) = Finite (5437009452097261 / 128)"
  by (rule to_double_eqI [where e = 45 and m = 5437009452097261]) (simp_all add: eval_simps)

text \<open>
  The claim C4 as stated fails. The price \<open>1.005\<close> is stored as \<open>1\<close>, while
  \<open>1.005\<close> rounded to two decimals is \<open>1.01\<close>: the double nearest \<open>1.005\<close> lies below
  it and its product with 100 is \<open>100.49999999999999\<close>. The price
  \<open>42476636344509.836\<close> is stored as the double \<open>42476636344509.84\<close>, and that stored
  price is not \<open>Math.round(price * 100) / 100\<close>, which is \<open>42476636344509.85\<close>.
\<close>

theorem hook_misses_decimal_rounding:
  "pre_save (priced (to_double 1.005)) = priced (Finite 1)
   \<and> js_round (1.005 * 100) / 100 = 1.01
   \<and> pre_save (priced (to_double 42476636344509.836)) = priced (Finite (1359252363024315 / 32))
   \<and> pre_save (priced (Finite (1359252363024315 / 32)))
       = priced (Finite (5437009452097261 / 128))
   \<and> (1359252363024315 / 32 :: real) \<noteq> 5437009452097261 / 128"
proof (intro conjI)
  show "pre_save (priced (to_double 1.005)) = priced (Finite 1)"
    unfolding parse_1005
    by (rule hook_eval [OF _ times_1005 round_1005 to_double_1]) simp
  show "js_round (1.005 * 100) / 100 = 1.01"
    by (simp add: js_round_def)
  show "pre_save (priced (to_double 42476636344509.836))
          = priced (Finite (1359252363024315 / 32))"
    unfolding parse_large
    by (rule hook_eval [OF _ times_large round_large divide_large]) simp
  show "pre_save (priced (Finite (1359252363024315 / 32)))
          = priced (Finite (5437009452097261 / 128))"
    by (rule hook_eval [OF _ times_stored round_stored divide_stored]) simp
  show "(1359252363024315 / 32 :: real) \<noteq> 5437009452097261 / 128"
    by simp
qed

lemma to_double_finite: "\<bar>nearest z\<bar> < 2 ^ 1024 \<Longrightarrow> to_double z = Finite (nearest z)"
  using not_overflows [of "nearest z"] by (simp add: to_double_def)

lemma tiny_le: "(1 / 2 :: real) ^ 1022 \<le> 1 / 128"
proof -
  have "(1 / 2 :: real) ^ 1022 \<le> (1 / 2) ^ 7"
    by (rule power_decreasing) simp_all
  also have "(1 / 2 :: real) ^ 7 = 1 / 128"
    by (simp add: power_one_over)
  finally show ?thesis .
qed

lemma big_le: "(2 :: real) ^ 60 \<le> 2 ^ 1024"
  by (rule power_increasing) simp_all

lemma nearest_close: "\<bar>nearest z - z\<bar> \<le> (\<bar>z\<bar> + 1) / 2 ^ 53"
proof (cases "\<bar>z\<bar> < 1")
  case True
  from nearest_error_small [OF this] have "\<bar>nearest z - z\<bar> \<le> 1 / 2 ^ 53" .
  also have "(1 :: real) / 2 ^ 53 \<le> (\<bar>z\<bar> + 1) / 2 ^ 53"
    by (rule divide_right_mono) simp_all
  finally show ?thesis .
next
  case False
  with tiny_le have "(1 / 2) ^ 1022 \<le> \<bar>z\<bar>" by linarith
  from nearest_error_relative [OF this] have "\<bar>nearest z - z\<bar> \<le> \<bar>z\<bar> / 2 ^ 53" .
  also have "\<bar>z\<bar> / 2 ^ 53 \<le> (\<bar>z\<bar> + 1) / 2 ^ 53"
    by (rule divide_right_mono) simp_all
  finally show ?thesis .
qed

lemma to_double_zero: "to_double 0 = Finite 0"
proof -
  have "nearest 0 = 0"
    by (simp add: nearest_def round_half_even_def)
  then show ?thesis
    by (simp add: to_double_def overflows_def halvings_small del: halvings.simps)
qed

lemma js_round_int:
  assumes "\<bar>w - of_int n\<bar> < 1 / 2"
  shows "js_round w = of_int n"
proof -
  from assms have "of_int n \<le> w + 1 / 2" and "w + 1 / 2 < of_int n + 1"
    by linarith+
  then have "\<lfloor>w + 1 / 2\<rfloor> = n" by (rule floor_unique)
  then show ?thesis by (simp add: js_round_def)
qed

text \<open>
  A number of cents from 1 to \<open>10^15\<close> survives the hook: divided by 100, multiplied
  by 100 and rounded, all in doubles, it is the same integer again.
\<close>

lemma cents_stable:
  fixes n :: int
  assumes n1: "1 \<le> n" and n2: "n \<le> 10 ^ 15"
  shows "to_double (of_int n / 100) = Finite (nearest (of_int n / 100))"
    and "nearest (of_int n / 100) \<noteq> 0"
    and "to_double (nearest (of_int n / 100) * 100)
           = Finite (nearest (nearest (of_int n / 100) * 100))"
    and "js_round (nearest (nearest (of_int n / 100) * 100)) = of_int n"
proof -
  define r :: real where "r = of_int n"
  define y where "y = nearest (r / 100)"
  define w where "w = nearest (y * 100)"
  have r1: "1 \<le> r"
    using n1 by (simp add: r_def)
  from n2 have "of_int n \<le> (of_int (10 ^ 15) :: real)"
    by (simp only: of_int_le_iff)
  then have r2: "r \<le> 1000000000000000"
    by (simp add: r_def)
  have ru: "r / 2 ^ 53 \<le> 1 / 8"
    using r2 by simp
  have "(1 / 2) ^ 1022 \<le> \<bar>r / 100\<bar>"
    using tiny_le r1 by simp
  from nearest_error_relative [OF this] r1
  have "\<bar>y - r / 100\<bar> \<le> r / 100 / 2 ^ 53"
    by (simp add: y_def)
  moreover define d where "d = r / 2 ^ 53"
  moreover have "r / 100 / 2 ^ 53 = d / 100"
    by (simp add: d_def)
  ultimately have "\<bar>y - r / 100\<bar> \<le> d / 100"
    by (simp only:)
  then have "\<bar>y * 100 - r\<bar> \<le> d"
    by linarith
  then have ey': "\<bar>y * 100 - r\<bar> \<le> r / 2 ^ 53"
    by (simp only: d_def)
  with ru have yr: "\<bar>y * 100 - r\<bar> \<le> 1 / 8" by linarith
  with r1 r2 have ybounds: "1 / 2 \<le> y * 100" "y * 100 \<le> 1000000000000001"
    by linarith+
  then have ypos: "0 < y" and ysmall: "\<bar>y\<bar> < 2 ^ 60"
    by simp_all
  from ysmall big_le have "\<bar>nearest (r / 100)\<bar> < 2 ^ 1024"
    by (simp add: y_def)
  then show "to_double (of_int n / 100) = Finite (nearest (of_int n / 100))"
    unfolding r_def by (rule to_double_finite)
  from ypos show "nearest (of_int n / 100) \<noteq> 0"
    by (simp add: y_def r_def)
  have "(1 / 2) ^ 1022 \<le> \<bar>y * 100\<bar>"
    using tiny_le ybounds(1) by simp
  from nearest_error_relative [OF this] ybounds(1)
  have ew: "\<bar>w - y * 100\<bar> \<le> y * 100 / 2 ^ 53"
    by (simp add: w_def)
  have "y * 100 / 2 ^ 53 \<le> 1 / 8"
    using ybounds(2) by simp
  with ew have ew': "\<bar>w - y * 100\<bar> \<le> 1 / 8"
    by linarith
  with yr have close: "\<bar>w - r\<bar> \<le> 1 / 4" by linarith
  with r1 r2 have "\<bar>w\<bar> < 2000000000000000" by linarith
  then have "\<bar>w\<bar> < 2 ^ 60" by simp
  with big_le have "\<bar>nearest (y * 100)\<bar> < 2 ^ 1024"
    by (simp add: w_def)
  then show "to_double (nearest (of_int n / 100) * 100)
           = Finite (nearest (nearest (of_int n / 100) * 100))"
    unfolding y_def r_def by (rule to_double_finite)
  from close have "\<bar>w - of_int n\<bar> < 1 / 2"
    by (simp add: r_def)
  then show "js_round (nearest (nearest (of_int n / 100) * 100)) = of_int n"
    unfolding w_def y_def r_def by (rule js_round_int)
qed

text \<open>
  C4, as the code has it. For a price from 0 up to \<open>10^13\<close> the hook stores
  \<open>Math.round(price * 100) / 100\<close> as computed in doubles: the double nearest to
  \<open>n / 100\<close> for an integer \<open>n\<close> that lies within a half, and the rounding error of the
  product, of \<open>price * 100\<close>. The stored document is a fixed point of the hook: its
  price equals \<open>Math.round(price * 100) / 100\<close> in the same arithmetic.
\<close>

theorem saved_price_is_nearest_cent:
  assumes p: "price this = Finite p" and p0: "0 \<le> p" and p1: "p \<le> 10 ^ 13"
  shows "\<exists>n::int. price (pre_save this) = to_double (of_int n / 100)
           \<and> \<bar>of_int n - p * 100\<bar> \<le> 1 / 2 + (p * 100 + 1) / 2 ^ 53
           \<and> fdiv (Math_round (fmul (price (pre_save this)) (Finite 100))) (Finite 100)
               = price (pre_save this)
           \<and> pre_save (pre_save this) = pre_save this"
proof (cases "p = 0")
  case True
  then have same: "pre_save this = this"
    by (simp add: pre_save_def p)
  have "price (pre_save this) = to_double (of_int 0 / 100)"
    by (simp add: same p True to_double_zero)
  moreover have "\<bar>of_int 0 - p * 100\<bar> \<le> 1 / 2 + (p * 100 + 1) / 2 ^ 53"
    by (simp add: True)
  moreover have "fdiv (Math_round (fmul (price (pre_save this)) (Finite 100))) (Finite 100)
      = price (pre_save this)"
    by (simp add: same p True to_double_zero js_round_def)
  moreover have "pre_save (pre_save this) = pre_save this"
    by (simp add: same)
  ultimately show ?thesis by blast
next
  case False
  with p0 have ppos: "0 < p" by simp
  define w where "w = nearest (p * 100)"
  define n where "n = \<lfloor>w + 1 / 2\<rfloor>"
  have z: "\<bar>p * 100\<bar> = p * 100" using ppos by simp
  from nearest_close [of "p * 100"]
  have ew: "\<bar>w - p * 100\<bar> \<le> (p * 100 + 1) / 2 ^ 53"
    by (simp only: w_def z)
  from p1 have p1': "p \<le> 10000000000000" by simp
  then have small: "(p * 100 + 1) / 2 ^ 53 \<le> 1 / 8"
    by simp
  with ew ppos p1' have wb: "- (1 / 8) \<le> w" "w \<le> 1000000000000000 + 1 / 8"
    by linarith+
  then have "\<bar>w\<bar> < 2 ^ 60" by simp
  with big_le have "\<bar>nearest (p * 100)\<bar> < 2 ^ 1024"
    by (simp add: w_def)
  then have mul: "to_double (p * 100) = Finite w"
    unfolding w_def by (rule to_double_finite)
  have rn: "js_round w = of_int n"
    by (simp add: js_round_def n_def)
  have nw: "\<bar>of_int n - w\<bar> \<le> 1 / 2"
    unfolding n_def by linarith
  have n0: "0 \<le> n"
    unfolding n_def using wb(1) by (simp add: le_floor_iff)
  have n1: "n \<le> 10 ^ 15"
  proof -
    from wb(2) have "w + 1 / 2 < of_int 1000000000000001" by simp
    then have "\<lfloor>w + 1 / 2\<rfloor> < 1000000000000001" by (simp only: floor_less_iff)
    then show ?thesis by (simp add: n_def)
  qed
  have first: "pre_save this = this\<lparr>price := to_double (of_int n / 100)\<rparr>"
    using False by (simp add: pre_save_def p mul rn)
  then have price1: "price (pre_save this) = to_double (of_int n / 100)"
    by simp
  from nw ew have bound: "\<bar>of_int n - p * 100\<bar> \<le> 1 / 2 + (p * 100 + 1) / 2 ^ 53"
    by linarith
  have again: "fdiv (Math_round (fmul (to_double (of_int n / 100)) (Finite 100))) (Finite 100)
      = to_double (of_int n / 100)"
  proof (cases "n = 0")
    case True
    then show ?thesis
      by (simp add: to_double_zero js_round_def)
  next
    case False
    with n0 have "1 \<le> n" by simp
    note c = cents_stable [OF this n1]
    show ?thesis
      by (simp add: c)
  qed
  then have equation: "fdiv (Math_round (fmul (price (pre_save this)) (Finite 100))) (Finite 100)
      = price (pre_save this)"
    by (simp only: price1)
  have "pre_save (this\<lparr>price := to_double (of_int n / 100)\<rparr>)
          = this\<lparr>price := to_double (of_int n / 100)\<rparr>"
    by (simp add: pre_save_def again)
  then have stable: "pre_save (pre_save this) = pre_save this"
    by (simp only: first)
  from price1 bound equation stable show ?thesis by blast
qed

text \<open>The theorem of C4 at the price \<open>10.999\<close>.\<close>

theorem saved_price_is_nearest_cent_witness:
  "price (priced (Finite 10.999)) = Finite 10.999 \<and> (0::real) \<le> 10.999 \<and> (10.999::real) \<le> 10 ^ 13
   \<and> (\<exists>n::int. price (pre_save (priced (Finite 10.999))) = to_double (of_int n / 100)
         \<and> \<bar>of_int n - (10.999 :: real) * 100\<bar> \<le> 1 / 2 + (10.999 * 100 + 1) / 2 ^ 53
         \<and> fdiv (Math_round (fmul (price (pre_save (priced (Finite 10.999)))) (Finite 100)))
               (Finite 100)
             = price (pre_save (priced (Finite 10.999)))
         \<and> pre_save (pre_save (priced (Finite 10.999))) = pre_save (priced (Finite 10.999)))"
proof -
  have a: "price (priced (Finite 10.999)) = Finite 10.999" by (simp add: priced_def)
  have b: "(0::real) \<le> 10.999" and c: "(10.999::real) \<le> 10 ^ 13" by simp_all
  from saved_price_is_nearest_cent [OF a b c] a b c show ?thesis by blast
qed

end
